theory Spec2Isabelle
  imports Complex_Main "HOL-Library.List_Lexorder" "HOL-Library.Char_ord" "HOL-Library.Log_Nat"
begin

section \<open>Solar energy calculator: embedding of \<^verbatim>\<open>cal.py\<close>\<close>

text \<open>
  The script \<^verbatim>\<open>cal.py\<close> holds a table of seasons, a linear energy formula and a
  generator of one synthetic record per calendar day. Python's unbounded integers are
  \<open>int\<close>. A Python float is the rational that is its exact value, and every float
  operation rounds its exact result to binary64. A dictionary read with a key that may
  be missing returns a sum type, \<open>Inl (KeyError k)\<close> being the exception Python raises.
\<close>

subsection \<open>Errors and dictionaries\<close>

datatype py_error = KeyError string | IllegalMonthError int

text \<open>\<^verbatim>\<open>d[k]\<close> on a dictionary with string keys, kept as an association list
  in the order the source writes the entries.\<close>

definition dict_get :: "(string \<times> 'v) list \<Rightarrow> string \<Rightarrow> py_error + 'v" where
  "dict_get d k = (case map_of d k of None \<Rightarrow> Inl (KeyError k) | Some v \<Rightarrow> Inr v)"

definition MONTH_NAME_TO_NUM :: "(string \<times> int) list" where
  "MONTH_NAME_TO_NUM =
     [(''January'', 1), (''February'', 2), (''March'', 3), (''April'', 4),
      (''May'', 5), (''June'', 6), (''July'', 7), (''August'', 8),
      (''September'', 9), (''October'', 10), (''November'', 11), (''December'', 12)]"

subsection \<open>The season table\<close>

text \<open>The value under \<^verbatim>\<open>'ranges'\<close> is a dictionary that always has the same five
  keys, each holding a pair of integers (the table's literals, or what the integer sliders
  return). The fields are named after the script's variables for the five slider values.\<close>

record feature_ranges =
  irradiance_range :: "int \<times> int"
  humidity_range :: "int \<times> int"
  wind_range :: "int \<times> int"
  temp_range :: "int \<times> int"
  tilt_range :: "int \<times> int"

text \<open>One entry of \<^verbatim>\<open>SEASONS_CONFIG\<close>. The \<^verbatim>\<open>'icon'\<close> entry is an emoji used
  only in page markup and is left out.\<close>

record season_config =
  months :: "string list"
  ranges :: feature_ranges
  color :: string

definition SEASONS_CONFIG :: "(string \<times> season_config) list" where
  "SEASONS_CONFIG =
     [(''winter'',
        \<lparr>months = [''November'', ''December'', ''January'', ''February''],
         ranges = \<lparr>irradiance_range = (300, 700), humidity_range = (30, 70),
                   wind_range = (1, 6), temp_range = (5, 20), tilt_range = (10, 40)\<rparr>,
         color = ''#3498db''\<rparr>),
      (''spring'',
        \<lparr>months = [''March'', ''April'', ''May''],
         ranges = \<lparr>irradiance_range = (400, 800), humidity_range = (40, 80),
                   wind_range = (2, 8), temp_range = (15, 25), tilt_range = (15, 35)\<rparr>,
         color = ''#2ecc71''\<rparr>),
      (''summer'',
        \<lparr>months = [''June'', ''July'', ''August''],
         ranges = \<lparr>irradiance_range = (600, 1000), humidity_range = (50, 90),
                   wind_range = (3, 10), temp_range = (25, 40), tilt_range = (0, 30)\<rparr>,
         color = ''#f39c12''\<rparr>),
      (''autumn'',
        \<lparr>months = [''September'', ''October''],
         ranges = \<lparr>irradiance_range = (350, 750), humidity_range = (35, 75),
                   wind_range = (2, 7), temp_range = (10, 25), tilt_range = (20, 45)\<rparr>,
         color = ''#e67e22''\<rparr>)]"

subsection \<open>Days in a month\<close>

text \<open>\<^verbatim>\<open>calendar.isleap\<close>, \<^verbatim>\<open>calendar.mdays\<close> and the second component of
  \<^verbatim>\<open>calendar.monthrange(year, month)\<close> of Python's standard library. Python's
  \<^verbatim>\<open>%\<close> with a positive modulus is \<open>mod\<close> on \<open>int\<close>. The first component (the
  weekday of the first day) is computed for every integer year and discarded by the
  script.\<close>

definition isleap :: "int \<Rightarrow> bool" where
  "isleap year =
     (if year mod 4 = 0 then (if year mod 100 = 0 then year mod 400 = 0 else True) else False)"

definition mdays :: "int list" where
  "mdays = [0, 31, 28, 31, 30, 31, 30, 31, 31, 30, 31, 30, 31]"

definition monthrange_ndays :: "int \<Rightarrow> int \<Rightarrow> py_error + int" where
  "monthrange_ndays year month =
     (if 1 \<le> month \<and> month \<le> 12
      then Inr (mdays ! nat month + (if month = 2 \<and> isleap year then 1 else 0))
      else Inl (IllegalMonthError month))"

definition get_days_in_month :: "string \<Rightarrow> int \<Rightarrow> py_error + int" where
  "get_days_in_month month_name year =
     (case dict_get MONTH_NAME_TO_NUM month_name of
        Inl e \<Rightarrow> Inl e
      | Inr num \<Rightarrow> monthrange_ndays year num)"

subsection \<open>Binary floating point\<close>

text \<open>A Python \<^verbatim>\<open>float\<close> is an IEEE 754 binary64 number. A finite one is modelled by
  its exact value, a rational; every operation computes the exact result and rounds it
  to the nearest binary64 number, a tie going to the one with the even significand.
  \<open>binade x\<close> is the exponent \<open>e\<close> with \<open>2^e \<le> |x| < 2^(e+1)\<close>, \<open>ulp x\<close> the distance
  between neighbouring binary64 numbers around \<open>x\<close> (53 significant bits, and \<open>2^-1074\<close>
  in the subnormal range), \<open>fl x\<close> the binary64 number nearest to \<open>x\<close>. Infinities and
  NaN are not values of the model and the exponent has no upper limit: the energy
  formula cannot overflow on finite arguments (its weights add up to less than 1), and
  the ranges of the table and of the sliders are below 1200.\<close>

definition round_half_even :: "rat \<Rightarrow> int" where
  "round_half_even y =
     (let f = \<lfloor>y\<rfloor>; d = y - of_int f
      in if d < 1 / 2 then f else if 1 / 2 < d then f + 1 else if even f then f else f + 1)"

definition binade :: "rat \<Rightarrow> int" where
  "binade x =
     (if 1 \<le> \<bar>x\<bar> then bitlen \<lfloor>\<bar>x\<bar>\<rfloor> - 1 else - bitlen (\<lceil>1 / \<bar>x\<bar>\<rceil> - 1))"

definition ulp :: "rat \<Rightarrow> rat" where
  "ulp x = power_int 2 (max (binade x - 52) (- 1074))"

definition fl :: "rat \<Rightarrow> rat" where
  "fl x = (if x = 0 then 0 else of_int (round_half_even (x / ulp x)) * ulp x)"

definition fadd :: "rat \<Rightarrow> rat \<Rightarrow> rat" where
  "fadd x y = fl (x + y)"

definition fsub :: "rat \<Rightarrow> rat \<Rightarrow> rat" where
  "fsub x y = fl (x - y)"

definition fmul :: "rat \<Rightarrow> rat \<Rightarrow> rat" where
  "fmul x y = fl (x * y)"

subsection \<open>The energy formula\<close>

text \<open>The five weights of one season; the source keeps them in a dictionary with the
  keys \<^verbatim>\<open>irr\<close>, \<^verbatim>\<open>hum\<close>, \<^verbatim>\<open>wind\<close>, \<^verbatim>\<open>temp\<close>, \<^verbatim>\<open>tilt\<close>. A decimal literal
  denotes the binary64 number nearest to it.\<close>

record coeff =
  c_irr :: rat
  c_hum :: rat
  c_wind :: rat
  c_temp :: rat
  c_tilt :: rat

definition coefficients :: "(string \<times> coeff) list" where
  "coefficients =
     [(''winter'', \<lparr>c_irr = fl (18 / 100), c_hum = - fl (3 / 100), c_wind = fl (15 / 1000),
                    c_temp = fl (8 / 100), c_tilt = - fl (2 / 100)\<rparr>),
      (''spring'', \<lparr>c_irr = fl (20 / 100), c_hum = - fl (25 / 1000), c_wind = fl (2 / 100),
                    c_temp = fl (6 / 100), c_tilt = - fl (15 / 1000)\<rparr>),
      (''summer'', \<lparr>c_irr = fl (22 / 100), c_hum = - fl (35 / 1000), c_wind = fl (25 / 1000),
                    c_temp = fl (4 / 100), c_tilt = - fl (1 / 100)\<rparr>),
      (''autumn'', \<lparr>c_irr = fl (19 / 100), c_hum = - fl (28 / 1000), c_wind = fl (18 / 1000),
                    c_temp = fl (7 / 100), c_tilt = - fl (18 / 1000)\<rparr>)]"

text \<open>The sum is evaluated from left to right, each product and each sum rounded.\<close>

definition calc_kwh_generalized ::
  "rat \<Rightarrow> rat \<Rightarrow> rat \<Rightarrow> rat \<Rightarrow> rat \<Rightarrow> string \<Rightarrow> py_error + rat" where
  "calc_kwh_generalized irradiance humidity wind_speed ambient_temp tilt_angle season =
     (case dict_get coefficients season of
        Inl e \<Rightarrow> Inl e
      | Inr coeff \<Rightarrow>
          (let optimal_tilt = (if season \<in> set [''winter'', ''spring''] then 30 else 20)
           in Inr (fadd (fadd (fadd (fadd
                     (fmul (c_irr coeff) irradiance)
                     (fmul (c_hum coeff) humidity))
                     (fmul (c_wind coeff) wind_speed))
                     (fmul (c_temp coeff) ambient_temp))
                     (fmul (c_tilt coeff) \<bar>fsub tilt_angle optimal_tilt\<bar>))))"

subsection \<open>Rounding and formatting\<close>

text \<open>Python's \<^verbatim>\<open>round(x, 2)\<close> on a float: the multiple of 1/100 nearest to the exact
  value of \<open>x\<close>, a tie going to the even one, and of that the nearest binary64 number.\<close>

definition round2 :: "rat \<Rightarrow> rat" where
  "round2 x = fl (of_int (round_half_even (x * 100)) / 100)"

text \<open>\<^verbatim>\<open>str\<close> of an integer, and the format \<^verbatim>\<open>:02d\<close>, which pads with zeros to
  two characters, the sign counted.\<close>

fun str_nat :: "nat \<Rightarrow> string" where
  "str_nat n =
     (if n < 10 then [''0123456789'' ! n]
      else str_nat (n div 10) @ [''0123456789'' ! (n mod 10)])"

declare str_nat.simps [simp del]

definition str_int :: "int \<Rightarrow> string" where
  "str_int i = (if i < 0 then ''-'' @ str_nat (nat (- i)) else str_nat (nat i))"

definition fmt_02d :: "int \<Rightarrow> string" where
  "fmt_02d i = (let s = str_int i in if length s < 2 then ''0'' @ s else s)"

subsection \<open>The random source\<close>

text \<open>The generator of \<^verbatim>\<open>np.random\<close> is a sequence of unit samples, each a binary64
  number in \<open>[0, 1)\<close>, and the index of the next one. \<^verbatim>\<open>np.random.uniform(low, high)\<close>
  converts both bounds to binary64, takes their difference as the scale, takes one unit
  sample \<open>u\<close> and returns \<open>low + scale * u\<close>, the product and the sum rounded.\<close>

type_synonym rng = "(nat \<Rightarrow> rat) \<times> nat"

definition uniform_sample :: "int \<times> int \<Rightarrow> rat \<Rightarrow> rat" where
  "uniform_sample r u =
     (case r of (low, high) \<Rightarrow>
        (let flow = fl (of_int low); fhigh = fl (of_int high); fscale = fsub fhigh flow
         in fadd flow (fmul fscale u)))"

definition uniform :: "int \<times> int \<Rightarrow> rng \<Rightarrow> rat \<times> rng" where
  "uniform r g = (uniform_sample r (fst g (snd g)), (fst g, Suc (snd g)))"

subsection \<open>The data generator\<close>

text \<open>One row of the generated table; the fields are the keys of the dictionary the
  loop appends, in its order.\<close>

record daily_record =
  date :: string
  irradiance :: rat
  humidity :: rat
  wind_speed :: rat
  ambient_temperature :: rat
  tilt_angle :: rat
  kwh :: rat
  season :: string
  month :: string
  day :: int

text \<open>The body of the inner loop of \<^verbatim>\<open>generate_seasonal_data\<close>: five draws, the
  energy of the unrounded draws, then the row with every number rounded.\<close>

definition make_record ::
  "string \<Rightarrow> string \<Rightarrow> feature_ranges \<Rightarrow> int \<Rightarrow> int \<Rightarrow> rng \<Rightarrow> py_error + (daily_record \<times> rng)" where
  "make_record s m fr yr d g =
     (case uniform (irradiance_range fr) g of (irr, g1) \<Rightarrow>
      case uniform (humidity_range fr) g1 of (hum, g2) \<Rightarrow>
      case uniform (wind_range fr) g2 of (wind, g3) \<Rightarrow>
      case uniform (temp_range fr) g3 of (temp, g4) \<Rightarrow>
      case uniform (tilt_range fr) g4 of (tilt, g5) \<Rightarrow>
      case calc_kwh_generalized irr hum wind temp tilt s of
        Inl e \<Rightarrow> Inl e
      | Inr k \<Rightarrow>
         (case dict_get MONTH_NAME_TO_NUM m of
            Inl e \<Rightarrow> Inl e
          | Inr num \<Rightarrow>
              Inr (\<lparr>date = str_int yr @ ''-'' @ fmt_02d num @ ''-'' @ fmt_02d d,
                    irradiance = round2 irr,
                    humidity = round2 hum,
                    wind_speed = round2 wind,
                    ambient_temperature = round2 temp,
                    tilt_angle = round2 tilt,
                    kwh = round2 k,
                    season = s,
                    month = m,
                    day = d\<rparr>, g5)))"

text \<open>The inner loop over \<^verbatim>\<open>range(1, days + 1)\<close> and the outer loop over the months;
  \<open>data\<close> is the list the rows are appended to.\<close>

fun gen_days ::
  "string \<Rightarrow> string \<Rightarrow> feature_ranges \<Rightarrow> int \<Rightarrow> int list \<Rightarrow> daily_record list \<Rightarrow> rng
     \<Rightarrow> py_error + (daily_record list \<times> rng)" where
  "gen_days s m fr yr [] data g = Inr (data, g)"
| "gen_days s m fr yr (d # ds) data g =
     (case make_record s m fr yr d g of
        Inl e \<Rightarrow> Inl e
      | Inr (r, g') \<Rightarrow> gen_days s m fr yr ds (data @ [r]) g')"

fun gen_months ::
  "string \<Rightarrow> string list \<Rightarrow> feature_ranges \<Rightarrow> int \<Rightarrow> daily_record list \<Rightarrow> rng
     \<Rightarrow> py_error + (daily_record list \<times> rng)" where
  "gen_months s [] fr yr data g = Inr (data, g)"
| "gen_months s (m # ms) fr yr data g =
     (case get_days_in_month m yr of
        Inl e \<Rightarrow> Inl e
      | Inr days \<Rightarrow>
         (case gen_days s m fr yr [1..days] data g of
            Inl e \<Rightarrow> Inl e
          | Inr (data', g') \<Rightarrow> gen_months s ms fr yr data' g'))"

definition generate_seasonal_data ::
  "string \<Rightarrow> string list \<Rightarrow> feature_ranges \<Rightarrow> int \<Rightarrow> rng \<Rightarrow> py_error + (daily_record list \<times> rng)" where
  "generate_seasonal_data s ms fr yr g = gen_months s ms fr yr [] g"

subsection \<open>The page: session state and the data display\<close>

text \<open>\<^verbatim>\<open>st.session_state\<close> holds at most the last generated table and the season
  it was generated for; a key that was never assigned is \<open>None\<close>.\<close>

record session_state =
  solar_data :: "daily_record list option"
  current_season :: "string option"

text \<open>What the data display writes to the page, in order. Markup, colours, emoji and
  number formatting are presentation and are left out: a metric card carries its title
  and its number, a chart its kind, the table of monthly statistics its column titles,
  the download button its file name and the table it serialises.\<close>

datatype chart = Line | Heatmap | Histogram | Box | Scatter string

datatype element =
    Subheader string
  | MetricCard string rat
  | Dataframe "string list"
  | PlotlyChart chart
  | FormulaCard string
  | DownloadButton string "daily_record list"
  | Info string

definition no_data_prompt :: string where
  "no_data_prompt =
     ''Click '' @ [CHR 0x27] @ ''Generate Solar Data'' @ [CHR 0x27] @
     '' to start analyzing solar energy production!''"

definition csv_file_name :: "string \<Rightarrow> int \<Rightarrow> string" where
  "csv_file_name selected_season selected_year =
     ''solar_energy_'' @ selected_season @ ''_'' @ str_int selected_year @ ''.csv''"

text \<open>The \<^verbatim>\<open>if 'solar_data' in st.session_state: ... else: ...\<close> at the end of the
  script. A table with no rows has no column \<^verbatim>\<open>kwh\<close>, so reading it raises.\<close>

definition data_display :: "session_state \<Rightarrow> string \<Rightarrow> int \<Rightarrow> py_error + element list" where
  "data_display ss selected_season selected_year =
     (case solar_data ss of
        Some df \<Rightarrow>
          (if df = [] then Inl (KeyError ''kwh'')
           else Inr
             [Subheader ''Key Metrics'',
              MetricCard ''Total Energy'' (sum_list (map kwh df)),
              MetricCard ''Average Daily'' (sum_list (map kwh df) / of_nat (length df)),
              MetricCard ''Peak Day'' (fold max (map kwh (tl df)) (kwh (hd df))),
              MetricCard ''Total Days'' (of_nat (length df)),
              Subheader ''Monthly Breakdown'',
              Dataframe [''Total kWh'', ''Avg kWh'', ''Max kWh'', ''Min kWh'', ''Days''],
              Subheader ''Energy Production Analysis'',
              PlotlyChart Line,
              Subheader ''Parameter Correlation Analysis'',
              PlotlyChart Heatmap,
              PlotlyChart Histogram,
              PlotlyChart Box,
              Subheader ''Parameter Impact Analysis'',
              PlotlyChart (Scatter ''irradiance''),
              PlotlyChart (Scatter ''humidity''),
              PlotlyChart (Scatter ''wind_speed''),
              PlotlyChart (Scatter ''ambient_temperature''),
              PlotlyChart (Scatter ''tilt_angle''),
              Subheader ''Calculation Formula'',
              FormulaCard selected_season,
              Subheader ''Download Data'',
              DownloadButton (csv_file_name selected_season selected_year) df])
      | None \<Rightarrow> Inr [Info no_data_prompt])"

text \<open>One run of the script: the widget values, the session state and the random
  source go in; the data display, the new session state and the random source come out.
  The custom ranges replace the selected season's ranges when the checkbox is set; the
  button generates a table and stores it before the display reads the session state.\<close>

record ui_input =
  selected_season :: string
  selected_year :: int
  use_custom_params :: bool
  custom_ranges :: feature_ranges
  generate_clicked :: bool

definition run_script ::
  "ui_input \<Rightarrow> session_state \<Rightarrow> rng \<Rightarrow> py_error + (element list \<times> session_state \<times> rng)" where
  "run_script ui ss g =
     (case dict_get SEASONS_CONFIG (selected_season ui) of
        Inl e \<Rightarrow> Inl e
      | Inr cfg \<Rightarrow>
         (let season_info = (if use_custom_params ui then cfg\<lparr>ranges := custom_ranges ui\<rparr> else cfg)
          in case (if generate_clicked ui
                   then (case generate_seasonal_data (selected_season ui) (months season_info)
                                (ranges season_info) (selected_year ui) g of
                           Inl e \<Rightarrow> Inl e
                         | Inr (df_season, g') \<Rightarrow>
                             Inr (ss\<lparr>solar_data := Some df_season,
                                     current_season := Some (selected_season ui)\<rparr>, g'))
                   else Inr (ss, g)) of
               Inl e \<Rightarrow> Inl e
             | Inr (ss', g') \<Rightarrow>
                 (case data_display ss' (selected_season ui) (selected_year ui) of
                    Inl e \<Rightarrow> Inl e
                  | Inr page \<Rightarrow> Inr (page, ss', g'))))"

section \<open>Auxiliary facts about the generator\<close>

text \<open>What one pass of the loop body returns, and from it what the two loops return:
  the rows appended, the (month, day) pairs they carry, and the position of the random
  source, five samples further for every row.\<close>

lemma uniform_at: "uniform r (u, n) = (uniform_sample r (u n), (u, Suc n))"
  by (simp add: uniform_def)

lemma make_record_fields:
  assumes "make_record s m fr yr d (u, n) = Inr (r, g')"
  shows "g' = (u, n + 5)" "month r = m" "day r = d" "season r = s"
    and "\<exists>num. dict_get MONTH_NAME_TO_NUM m = Inr num \<and>
           date r = str_int yr @ ''-'' @ fmt_02d num @ ''-'' @ fmt_02d d"
    and "irradiance r = round2 (uniform_sample (irradiance_range fr) (u n))"
    and "humidity r = round2 (uniform_sample (humidity_range fr) (u (n + 1)))"
    and "wind_speed r = round2 (uniform_sample (wind_range fr) (u (n + 2)))"
    and "ambient_temperature r = round2 (uniform_sample (temp_range fr) (u (n + 3)))"
    and "tilt_angle r = round2 (uniform_sample (tilt_range fr) (u (n + 4)))"
    and "\<exists>k. calc_kwh_generalized
              (uniform_sample (irradiance_range fr) (u n))
              (uniform_sample (humidity_range fr) (u (n + 1)))
              (uniform_sample (wind_range fr) (u (n + 2)))
              (uniform_sample (temp_range fr) (u (n + 3)))
              (uniform_sample (tilt_range fr) (u (n + 4))) s = Inr k \<and>
            kwh r = round2 k"
  using assms
  by (auto simp: make_record_def uniform_at numeral_eq_Suc split: sum.splits)

lemma make_record_month:
  "make_record s m fr yr d (u, n) = Inr (r, g') \<Longrightarrow>
   month r = m \<and> day r = d \<and> season r = s \<and> g' = (u, n + 5)"
  by (simp add: make_record_fields)

lemma make_record_ok:
  assumes "dict_get coefficients s = Inr c" "dict_get MONTH_NAME_TO_NUM m = Inr num"
  shows "\<exists>r. make_record s m fr yr d (u, n) = Inr (r, (u, n + 5))"
  using assms
  by (simp add: make_record_def uniform_at calc_kwh_generalized_def Let_def numeral_eq_Suc)

lemma gen_days_char:
  "gen_days s m fr yr ds data (u, n) = Inr (data', g') \<Longrightarrow>
   \<exists>new. data' = data @ new \<and> length new = length ds \<and> g' = (u, n + 5 * length ds) \<and>
     (\<forall>i < length ds. make_record s m fr yr (ds ! i) (u, n + 5 * i) = Inr (new ! i, (u, n + 5 * i + 5)))"
proof (induction ds arbitrary: data n)
  case Nil
  then show ?case by simp
next
  case (Cons d ds)
  from Cons.prems obtain r g1 where
    mr: "make_record s m fr yr d (u, n) = Inr (r, g1)" and
    rest: "gen_days s m fr yr ds (data @ [r]) g1 = Inr (data', g')"
    by (auto split: sum.splits)
  from mr have g1: "g1 = (u, n + 5)" by (simp add: make_record_month)
  from Cons.IH [OF rest [unfolded g1]] obtain new where
    new: "data' = (data @ [r]) @ new" "length new = length ds" "g' = (u, n + 5 + 5 * length ds)"
      "\<forall>i < length ds. make_record s m fr yr (ds ! i) (u, n + 5 + 5 * i) = Inr (new ! i, (u, n + 5 + 5 * i + 5))"
    by blast
  have "\<forall>i < length (d # ds). make_record s m fr yr ((d # ds) ! i) (u, n + 5 * i) = Inr ((r # new) ! i, (u, n + 5 * i + 5))"
  proof (intro allI impI)
    fix i assume "i < length (d # ds)"
    show "make_record s m fr yr ((d # ds) ! i) (u, n + 5 * i) = Inr ((r # new) ! i, (u, n + 5 * i + 5))"
    proof (cases i)
      case 0
      then show ?thesis using mr g1 by simp
    next
      case (Suc j)
      with \<open>i < length (d # ds)\<close> have "j < length ds" by simp
      with new(4) have "make_record s m fr yr (ds ! j) (u, n + 5 + 5 * j) = Inr (new ! j, (u, n + 5 + 5 * j + 5))" by blast
      then show ?thesis using Suc by (simp add: add.assoc add.commute add.left_commute)
    qed
  qed
  with new show ?case by (intro exI [of _ "r # new"]) simp
qed

lemma gen_days_ok:
  assumes "dict_get coefficients s = Inr c" "dict_get MONTH_NAME_TO_NUM m = Inr num"
  shows "\<exists>data' g'. gen_days s m fr yr ds data (u, n) = Inr (data', g')"
proof (induction ds arbitrary: data n)
  case Nil
  then show ?case by simp
next
  case (Cons d ds)
  from make_record_ok [OF assms] obtain r where "make_record s m fr yr d (u, n) = Inr (r, (u, n + 5))" by blast
  with Cons.IH [of "data @ [r]" "n + 5"] show ?case by simp
qed

lemma gen_days_pairs:
  assumes "length new = length ds"
    and "\<forall>i < length ds. make_record s m fr yr (ds ! i) (u, n + 5 * i) = Inr (new ! i, (u, n + 5 * i + 5))"
  shows "map (\<lambda>r. (month r, day r)) new = map (Pair m) ds"
proof (rule nth_equalityI)
  show "length (map (\<lambda>r. (month r, day r)) new) = length (map (Pair m) ds)"
    using assms(1) by simp
next
  fix i assume "i < length (map (\<lambda>r. (month r, day r)) new)"
  then have i: "i < length ds" using assms(1) by simp
  with assms(2) have "make_record s m fr yr (ds ! i) (u, n + 5 * i) = Inr (new ! i, (u, n + 5 * i + 5))"
    by blast
  then have "month (new ! i) = m \<and> day (new ! i) = ds ! i" by (simp add: make_record_month)
  then show "map (\<lambda>r. (month r, day r)) new ! i = map (Pair m) ds ! i"
    using i assms(1) by simp
qed

lemma gen_months_char:
  "gen_months s ms fr yr data (u, n) = Inr (data', g') \<Longrightarrow>
   \<exists>new ns. data' = data @ new \<and> g' = (u, n + 5 * length new) \<and>
     map (\<lambda>m. get_days_in_month m yr) ms = map Inr ns \<and>
     map (\<lambda>r. (month r, day r)) new = concat (map (\<lambda>(m, k). map (Pair m) [1..k]) (zip ms ns)) \<and>
     (\<forall>i < length new. make_record s (month (new ! i)) fr yr (day (new ! i)) (u, n + 5 * i)
          = Inr (new ! i, (u, n + 5 * i + 5)))"
proof (induction ms arbitrary: data n)
  case Nil
  then show ?case by simp
next
  case (Cons m ms)
  from Cons.prems obtain k d1 g1 where
    k: "get_days_in_month m yr = Inr k" and
    gd: "gen_days s m fr yr [1..k] data (u, n) = Inr (d1, g1)" and
    rest: "gen_months s ms fr yr d1 g1 = Inr (data', g')"
    by (auto split: sum.splits)
  from gen_days_char [OF gd] obtain new1 where
    n1: "d1 = data @ new1" "length new1 = length [1..k]" "g1 = (u, n + 5 * length [1..k])"
      "\<forall>i < length [1..k]. make_record s m fr yr ([1..k] ! i) (u, n + 5 * i) = Inr (new1 ! i, (u, n + 5 * i + 5))"
    by blast
  have p1: "map (\<lambda>r. (month r, day r)) new1 = map (Pair m) [1..k]"
    by (rule gen_days_pairs [OF n1(2) n1(4)])
  from Cons.IH [OF rest [unfolded n1(3)]] obtain new2 ns where
    n2: "data' = d1 @ new2" "g' = (u, n + 5 * length [1..k] + 5 * length new2)"
      "map (\<lambda>m. get_days_in_month m yr) ms = map Inr ns"
      "map (\<lambda>r. (month r, day r)) new2 = concat (map (\<lambda>(m, k). map (Pair m) [1..k]) (zip ms ns))"
      "\<forall>i < length new2. make_record s (month (new2 ! i)) fr yr (day (new2 ! i)) (u, n + 5 * length [1..k] + 5 * i)
          = Inr (new2 ! i, (u, n + 5 * length [1..k] + 5 * i + 5))"
    by blast
  have idx: "\<forall>i < length (new1 @ new2).
      make_record s (month ((new1 @ new2) ! i)) fr yr (day ((new1 @ new2) ! i)) (u, n + 5 * i)
        = Inr ((new1 @ new2) ! i, (u, n + 5 * i + 5))"
  proof (intro allI impI)
    fix i assume i: "i < length (new1 @ new2)"
    show "make_record s (month ((new1 @ new2) ! i)) fr yr (day ((new1 @ new2) ! i)) (u, n + 5 * i)
        = Inr ((new1 @ new2) ! i, (u, n + 5 * i + 5))"
    proof (cases "i < length new1")
      case True
      then have il: "i < length [1..k]" using n1(2) by simp
      with n1(4) have mr: "make_record s m fr yr ([1..k] ! i) (u, n + 5 * i) = Inr (new1 ! i, (u, n + 5 * i + 5))"
        by blast
      then have "month (new1 ! i) = m \<and> day (new1 ! i) = [1..k] ! i" by (simp add: make_record_month)
      with mr True show ?thesis by (simp add: nth_append)
    next
      case False
      define j where "j = i - length new1"
      from False i have j: "j < length new2" "i = length new1 + j" by (auto simp: j_def)
      have eq: "n + 5 * length [1..k] + 5 * j = n + 5 * i" using j(2) n1(2) by simp
      from n2(5) j(1) have "make_record s (month (new2 ! j)) fr yr (day (new2 ! j)) (u, n + 5 * length [1..k] + 5 * j)
          = Inr (new2 ! j, (u, n + 5 * length [1..k] + 5 * j + 5))" by blast
      then have "make_record s (month (new2 ! j)) fr yr (day (new2 ! j)) (u, n + 5 * i)
          = Inr (new2 ! j, (u, n + 5 * i + 5))" unfolding eq .
      moreover have "(new1 @ new2) ! i = new2 ! j" using False j by (simp add: nth_append)
      ultimately show ?thesis by simp
    qed
  qed
  show ?case
  proof (intro exI [of _ "new1 @ new2"] exI [of _ "k # ns"] conjI)
    show "data' = data @ new1 @ new2" using n1(1) n2(1) by simp
    show "g' = (u, n + 5 * length (new1 @ new2))" using n2(2) n1(2) by simp
    show "map (\<lambda>m. get_days_in_month m yr) (m # ms) = map Inr (k # ns)" using k n2(3) by simp
    show "map (\<lambda>r. (month r, day r)) (new1 @ new2) =
        concat (map (\<lambda>(m, k). map (Pair m) [1..k]) (zip (m # ms) (k # ns)))"
      using p1 n2(4) by simp
    show "\<forall>i < length (new1 @ new2).
      make_record s (month ((new1 @ new2) ! i)) fr yr (day ((new1 @ new2) ! i)) (u, n + 5 * i)
        = Inr ((new1 @ new2) ! i, (u, n + 5 * i + 5))" by (rule idx)
  qed
qed

lemma dict_get_month_num:
  "dict_get MONTH_NAME_TO_NUM m = Inr num \<Longrightarrow> 1 \<le> num \<and> num \<le> 12"
  by (auto simp: dict_get_def MONTH_NAME_TO_NUM_def split: if_splits)

lemma monthrange_ndays_bounds:
  "monthrange_ndays yr num = Inr k \<Longrightarrow> 28 \<le> k \<and> k \<le> 31"
proof -
  assume a: "monthrange_ndays yr num = Inr k"
  then have "1 \<le> num \<and> num \<le> 12" by (auto simp: monthrange_ndays_def split: if_splits)
  then have "num \<in> {1,2,3,4,5,6,7,8,9,10,11,12}" by simp arith
  with a show ?thesis
    by (auto simp: monthrange_ndays_def mdays_def split: if_splits)
qed

lemma get_days_in_month_bounds:
  "get_days_in_month m yr = Inr k \<Longrightarrow> 28 \<le> k \<and> k \<le> 31"
  by (auto simp: get_days_in_month_def split: sum.splits dest: monthrange_ndays_bounds)

lemma get_days_in_month_ok:
  "dict_get MONTH_NAME_TO_NUM m = Inr num \<Longrightarrow> \<exists>k. get_days_in_month m yr = Inr k"
  by (auto simp: get_days_in_month_def monthrange_ndays_def dest: dict_get_month_num)

lemma gen_months_ok:
  assumes "dict_get coefficients s = Inr c"
  shows "list_all (\<lambda>m. \<exists>num. dict_get MONTH_NAME_TO_NUM m = Inr num) ms \<Longrightarrow>
    \<exists>data' g'. gen_months s ms fr yr data (u, n) = Inr (data', g')"
proof (induction ms arbitrary: data n)
  case Nil
  then show ?case by simp
next
  case (Cons m ms)
  then obtain num where num: "dict_get MONTH_NAME_TO_NUM m = Inr num" by auto
  from get_days_in_month_ok [OF num] obtain k where k: "get_days_in_month m yr = Inr k" by blast
  from gen_days_ok [OF assms num] obtain d1 g1 where
    gd: "gen_days s m fr yr [1..k] data (u, n) = Inr (d1, g1)" by blast
  from gen_days_char [OF gd] obtain n1 where "g1 = (u, n1)" by blast
  with Cons.IH [of d1 n1] Cons.prems k gd show ?case by simp
qed

lemma length_month_days:
  "length ms = length ns \<Longrightarrow> \<forall>k \<in> set ns. 0 \<le> k \<Longrightarrow>
   int (length (concat (map (\<lambda>(m, k). map (Pair m) [1..k]) (zip ms ns)))) = sum_list ns"
  by (induction ms ns rule: list_induct2) auto

section \<open>The season table partitions the year\<close>

text \<open>
  C5. The month lists of the four entries of the season table, put one after the other,
  name no month twice and name exactly the twelve months of \<open>MONTH_NAME_TO_NUM\<close>, whose
  numbers are 1 to 12; the table's keys are winter, spring, summer and autumn.
\<close>

theorem seasons_partition_months:
  "map fst SEASONS_CONFIG = [''winter'', ''spring'', ''summer'', ''autumn''] \<and>
   distinct (concat (map (\<lambda>(k, c). months c) SEASONS_CONFIG)) \<and>
   set (concat (map (\<lambda>(k, c). months c) SEASONS_CONFIG)) = set (map fst MONTH_NAME_TO_NUM) \<and>
   length (concat (map (\<lambda>(k, c). months c) SEASONS_CONFIG)) = 12 \<and>
   map snd MONTH_NAME_TO_NUM = [1 .. 12]"
  by (simp add: SEASONS_CONFIG_def MONTH_NAME_TO_NUM_def upto.simps) auto

subsection \<open>Auxiliary facts: the seasons of the table\<close>

text \<open>Every season of the table has coefficients and names only months of
  \<open>MONTH_NAME_TO_NUM\<close>, so the generator returns a table for it.\<close>

lemma seasons_config_valid:
  "dict_get SEASONS_CONFIG s = Inr cfg \<Longrightarrow>
   (\<exists>c. dict_get coefficients s = Inr c) \<and>
   list_all (\<lambda>m. \<exists>num. dict_get MONTH_NAME_TO_NUM m = Inr num) (months cfg)"
  by (auto simp: dict_get_def SEASONS_CONFIG_def coefficients_def MONTH_NAME_TO_NUM_def
      split: if_splits)

lemma generate_season_ok:
  assumes "dict_get SEASONS_CONFIG s = Inr cfg"
  shows "\<exists>recs g'. generate_seasonal_data s (months cfg) fr yr g = Inr (recs, g')"
proof -
  from seasons_config_valid [OF assms] obtain c where
    c: "dict_get coefficients s = Inr c" and
    ms: "list_all (\<lambda>m. \<exists>num. dict_get MONTH_NAME_TO_NUM m = Inr num) (months cfg)"
    by blast
  obtain u n where g: "g = (u, n)" by (cases g)
  from gen_months_ok [OF c ms] show ?thesis
    unfolding generate_seasonal_data_def g by blast
qed

lemma generate_char:
  assumes "generate_seasonal_data s ms fr yr (u, n) = Inr (recs, g')"
  shows "\<exists>ns. g' = (u, n + 5 * length recs) \<and>
     map (\<lambda>m. get_days_in_month m yr) ms = map Inr ns \<and>
     map (\<lambda>r. (month r, day r)) recs = concat (map (\<lambda>(m, k). map (Pair m) [1..k]) (zip ms ns)) \<and>
     (\<forall>i < length recs. make_record s (month (recs ! i)) fr yr (day (recs ! i)) (u, n + 5 * i)
          = Inr (recs ! i, (u, n + 5 * i + 5)))"
  using gen_months_char [OF assms [unfolded generate_seasonal_data_def]] by auto

lemma days_nonneg:
  assumes "map (\<lambda>m. get_days_in_month m yr) ms = map Inr ns"
  shows "\<forall>k \<in> set ns. 0 \<le> k"
proof
  fix k assume "k \<in> set ns"
  then obtain i where i: "i < length ns" "ns ! i = k" by (auto simp: in_set_conv_nth)
  from assms have len: "length ms = length ns" by (metis length_map)
  from assms i len have "get_days_in_month (ms ! i) yr = Inr k"
    by (metis nth_map)
  then show "0 \<le> k" using get_days_in_month_bounds by fastforce
qed

lemma winter_cfg:
  "dict_get SEASONS_CONFIG ''winter'' = Inr (snd (SEASONS_CONFIG ! 0))"
  by (simp add: dict_get_def SEASONS_CONFIG_def)

lemma winter_days_2024:
  "map (\<lambda>m. get_days_in_month m 2024) (months (snd (SEASONS_CONFIG ! 0))) = map Inr [30, 31, 31, 29]"
  by (simp add: SEASONS_CONFIG_def get_days_in_month_def dict_get_def MONTH_NAME_TO_NUM_def
      monthrange_ndays_def mdays_def isleap_def)

section \<open>One record per calendar day\<close>

text \<open>
  C1. For every season of the table and every year (with any ranges and any state of the
  random source) \<open>generate_seasonal_data\<close> on the season's months returns a table, and
  the number of its rows is the sum of the days \<open>get_days_in_month\<close> gives for the
  season's months in that year.
\<close>

theorem generate_record_count:
  assumes "dict_get SEASONS_CONFIG s = Inr cfg"
  shows "\<exists>recs g' ns. generate_seasonal_data s (months cfg) fr yr g = Inr (recs, g') \<and>
     map (\<lambda>m. get_days_in_month m yr) (months cfg) = map Inr ns \<and>
     int (length recs) = sum_list ns"
proof -
  obtain u n where g: "g = (u, n)" by (cases g)
  from generate_season_ok [OF assms] obtain recs g' where
    gen: "generate_seasonal_data s (months cfg) fr yr (u, n) = Inr (recs, g')"
    unfolding g by blast
  from generate_char [OF gen] obtain ns where
    ns: "map (\<lambda>m. get_days_in_month m yr) (months cfg) = map Inr ns" and
    pairs: "map (\<lambda>r. (month r, day r)) recs =
      concat (map (\<lambda>(m, k). map (Pair m) [1..k]) (zip (months cfg) ns))"
    by blast
  from ns have len: "length (months cfg) = length ns" by (metis length_map)
  have "int (length recs) = int (length (map (\<lambda>r. (month r, day r)) recs))" by simp
  also have "\<dots> = sum_list ns"
    unfolding pairs by (rule length_month_days [OF len days_nonneg [OF ns]])
  finally show ?thesis using gen ns unfolding g by blast
qed

theorem generate_record_count_witness:
  "dict_get SEASONS_CONFIG ''winter'' = Inr (snd (SEASONS_CONFIG ! 0)) \<and>
   (\<exists>recs g'. generate_seasonal_data ''winter'' (months (snd (SEASONS_CONFIG ! 0)))
        (ranges (snd (SEASONS_CONFIG ! 0))) 2024 (\<lambda>i. 1 / 2, 0) = Inr (recs, g') \<and>
      length recs = 121)"
proof -
  from generate_record_count [OF winter_cfg, of "ranges (snd (SEASONS_CONFIG ! 0))" 2024 "(\<lambda>i. 1 / 2, 0)"]
  obtain recs g' ns where
    gen: "generate_seasonal_data ''winter'' (months (snd (SEASONS_CONFIG ! 0)))
        (ranges (snd (SEASONS_CONFIG ! 0))) 2024 (\<lambda>i. 1 / 2, 0) = Inr (recs, g')" and
    ns: "map (\<lambda>m. get_days_in_month m 2024) (months (snd (SEASONS_CONFIG ! 0))) = map Inr ns" and
    len: "int (length recs) = sum_list ns"
    by blast
  from ns have "map Inr [30, 31, 31, 29] = map (Inr :: int \<Rightarrow> py_error + int) ns"
    unfolding winter_days_2024 .
  then have "[30, 31, 31, 29] = ns" by (rule map_injective) simp
  with len have "length recs = 121" by auto
  with gen winter_cfg show ?thesis by blast
qed

subsection \<open>Auxiliary facts: the rows of one month\<close>

lemma filter_month_pairs:
  "map day (filter (\<lambda>r. month r = M) recs) =
   map snd (filter (\<lambda>p. fst p = M) (map (\<lambda>r. (month r, day r)) recs))"
  by (induction recs) auto

lemma filter_Pair_month:
  "filter (\<lambda>p. fst p = M) (map (Pair m) ds) = (if m = M then map (Pair m) ds else [])"
  by (induction ds) auto

lemma winter_days_2023:
  "map (\<lambda>m. get_days_in_month m 2023) (months (snd (SEASONS_CONFIG ! 0))) = map Inr [30, 31, 31, 28]"
  by (simp add: SEASONS_CONFIG_def get_days_in_month_def dict_get_def MONTH_NAME_TO_NUM_def
      monthrange_ndays_def mdays_def isleap_def)

lemma winter_months: "months (snd (SEASONS_CONFIG ! 0)) = [''November'', ''December'', ''January'', ''February'']"
  by (simp add: SEASONS_CONFIG_def)

lemma winter_february_days:
  assumes gen: "generate_seasonal_data ''winter'' (months (snd (SEASONS_CONFIG ! 0))) fr yr g = Inr (recs, g')"
    and days: "map (\<lambda>m. get_days_in_month m yr) (months (snd (SEASONS_CONFIG ! 0))) = map Inr [30, 31, 31, k]"
  shows "map day (filter (\<lambda>r. month r = ''February'') recs) = [1..k]"
proof -
  obtain u n where g: "g = (u, n)" by (cases g)
  from generate_char [OF gen [unfolded g]] obtain ns where
    ns: "map (\<lambda>m. get_days_in_month m yr) (months (snd (SEASONS_CONFIG ! 0))) = map Inr ns" and
    pairs: "map (\<lambda>r. (month r, day r)) recs =
      concat (map (\<lambda>(m, k). map (Pair m) [1..k]) (zip (months (snd (SEASONS_CONFIG ! 0))) ns))"
    by blast
  from ns have "map Inr [30, 31, 31, k] = map (Inr :: int \<Rightarrow> py_error + int) ns"
    unfolding days .
  then have "[30, 31, 31, k] = ns" by (rule map_injective) simp
  with pairs have "map (\<lambda>r. (month r, day r)) recs =
      map (Pair ''November'') [1..30] @ map (Pair ''December'') [1..31] @
      map (Pair ''January'') [1..31] @ map (Pair ''February'') [1..k]"
    by (auto simp: winter_months)
  then show ?thesis
    by (simp add: filter_month_pairs filter_Pair_month o_def)
qed

section \<open>February in a leap year\<close>

text \<open>
  C6. For winter, whatever the ranges and the random source: with year 2024 the rows whose
  month is February have the days 1 to 29, in this order, so day 29 is among them and
  February contributes 29 rows; with year 2023 they have the days 1 to 28, February
  contributes 28 rows, and no row has month February and day 29.
\<close>

theorem winter_february_leap_year:
  "\<exists>cfg recs24 g24 recs23 g23.
     dict_get SEASONS_CONFIG ''winter'' = Inr cfg \<and>
     generate_seasonal_data ''winter'' (months cfg) fr 2024 g = Inr (recs24, g24) \<and>
     map day (filter (\<lambda>r. month r = ''February'') recs24) = [1..29] \<and>
     generate_seasonal_data ''winter'' (months cfg) fr 2023 g = Inr (recs23, g23) \<and>
     map day (filter (\<lambda>r. month r = ''February'') recs23) = [1..28] \<and>
     filter (\<lambda>r. month r = ''February'' \<and> day r = 29) recs23 = []"
proof -
  from generate_season_ok [OF winter_cfg] obtain recs24 g24 where
    g24: "generate_seasonal_data ''winter'' (months (snd (SEASONS_CONFIG ! 0))) fr 2024 g = Inr (recs24, g24)"
    by blast
  from generate_season_ok [OF winter_cfg] obtain recs23 g23 where
    g23: "generate_seasonal_data ''winter'' (months (snd (SEASONS_CONFIG ! 0))) fr 2023 g = Inr (recs23, g23)"
    by blast
  have f24: "map day (filter (\<lambda>r. month r = ''February'') recs24) = [1..29]"
    by (rule winter_february_days [OF g24 winter_days_2024])
  have f23: "map day (filter (\<lambda>r. month r = ''February'') recs23) = [1..28]"
    by (rule winter_february_days [OF g23 winter_days_2023])
  have "filter (\<lambda>r. month r = ''February'' \<and> day r = 29) recs23
      = filter (\<lambda>r. day r = 29) (filter (\<lambda>r. month r = ''February'') recs23)"
    by (simp add: conj_commute)
  also have "\<dots> = []"
  proof -
    have "\<forall>d \<in> set (map day (filter (\<lambda>r. month r = ''February'') recs23)). d \<noteq> 29"
      unfolding f23 by simp
    then show ?thesis by (auto simp: filter_empty_conv)
  qed
  finally have no29: "filter (\<lambda>r. month r = ''February'' \<and> day r = 29) recs23 = []" .
  from winter_cfg g24 f24 g23 f23 no29 show ?thesis by blast
qed

theorem winter_february_leap_year_witness:
  "\<exists>cfg recs24 g24 recs23 g23.
     dict_get SEASONS_CONFIG ''winter'' = Inr cfg \<and>
     generate_seasonal_data ''winter'' (months cfg) (ranges cfg) 2024 (\<lambda>i. 1 / 2, 0) = Inr (recs24, g24) \<and>
     map day (filter (\<lambda>r. month r = ''February'') recs24) =
       [1, 2, 3, 4, 5, 6, 7, 8, 9, 10, 11, 12, 13, 14, 15, 16, 17, 18, 19, 20, 21, 22, 23, 24, 25, 26, 27, 28, 29] \<and>
     generate_seasonal_data ''winter'' (months cfg) (ranges cfg) 2023 (\<lambda>i. 1 / 2, 0) = Inr (recs23, g23) \<and>
     length (filter (\<lambda>r. month r = ''February'') recs23) = 28"
proof -
  from winter_february_leap_year [of "ranges (snd (SEASONS_CONFIG ! 0))" "(\<lambda>i. 1 / 2, 0)"]
  obtain cfg recs24 g24 recs23 g23 where
    h: "dict_get SEASONS_CONFIG ''winter'' = Inr cfg"
     "generate_seasonal_data ''winter'' (months cfg) (ranges (snd (SEASONS_CONFIG ! 0))) 2024 (\<lambda>i. 1 / 2, 0) = Inr (recs24, g24)"
     "map day (filter (\<lambda>r. month r = ''February'') recs24) = [1..29]"
     "generate_seasonal_data ''winter'' (months cfg) (ranges (snd (SEASONS_CONFIG ! 0))) 2023 (\<lambda>i. 1 / 2, 0) = Inr (recs23, g23)"
     "map day (filter (\<lambda>r. month r = ''February'') recs23) = [1..28]"
    by blast
  from h(1) winter_cfg have cfg: "cfg = snd (SEASONS_CONFIG ! 0)" by simp
  have e29: "[1..29] = [1, 2, 3, 4, 5, 6, 7, 8, 9, 10, 11, 12, 13, 14, 15, 16, 17, 18, 19, 20, 21, 22, 23, 24, 25, 26, 27, 28, 29::int]"
    by code_simp
  have "length (map day (filter (\<lambda>r. month r = ''February'') recs23)) = 28"
    unfolding h(5) by simp
  then have l28: "length (filter (\<lambda>r. month r = ''February'') recs23) = 28" by simp
  from h(1,2,4) h(3) [unfolded e29] l28 show ?thesis unfolding cfg
    by (intro exI [of _ "snd (SEASONS_CONFIG ! 0)"] exI [of _ recs24] exI [of _ g24]
        exI [of _ recs23] exI [of _ g23]) simp
qed

section \<open>The energy formula\<close>

subsection \<open>Auxiliary facts: the formula at two inputs\<close>

lemma calc_kwh_examples:
  "calc_kwh_generalized 500 50 3 10 30 ''winter'' = Inr (fl (89345 / 1000))"
  "calc_kwh_generalized 1000 100 10 1 10 ''spring'' = Inr (3473753056330383 / 17592186044416)"
  by code_simp+

text \<open>
  C2. For each of the four seasons and all inputs, \<open>calc_kwh_generalized\<close> returns the
  linear combination of irradiance, humidity, wind speed, ambient temperature and the
  distance of the tilt angle from the optimal tilt, with the season's five constants,
  computed as the program computes it: in binary64, from left to right, every product and
  sum rounded. The optimal tilt is 30 for winter and spring and 20 for summer and autumn.
  For winter with irradiance 500, humidity 50, wind 3, temperature 10 and tilt 30 the
  result is the binary64 number that the literal \<^verbatim>\<open>89.345\<close> denotes.
\<close>

theorem calc_kwh_formula:
  "calc_kwh_generalized i h w t a ''winter'' =
     Inr (fadd (fadd (fadd (fadd (fmul (fl (18 / 100)) i) (fmul (- fl (3 / 100)) h))
            (fmul (fl (15 / 1000)) w)) (fmul (fl (8 / 100)) t))
            (fmul (- fl (2 / 100)) \<bar>fsub a 30\<bar>)) \<and>
   calc_kwh_generalized i h w t a ''spring'' =
     Inr (fadd (fadd (fadd (fadd (fmul (fl (20 / 100)) i) (fmul (- fl (25 / 1000)) h))
            (fmul (fl (2 / 100)) w)) (fmul (fl (6 / 100)) t))
            (fmul (- fl (15 / 1000)) \<bar>fsub a 30\<bar>)) \<and>
   calc_kwh_generalized i h w t a ''summer'' =
     Inr (fadd (fadd (fadd (fadd (fmul (fl (22 / 100)) i) (fmul (- fl (35 / 1000)) h))
            (fmul (fl (25 / 1000)) w)) (fmul (fl (4 / 100)) t))
            (fmul (- fl (1 / 100)) \<bar>fsub a 20\<bar>)) \<and>
   calc_kwh_generalized i h w t a ''autumn'' =
     Inr (fadd (fadd (fadd (fadd (fmul (fl (19 / 100)) i) (fmul (- fl (28 / 1000)) h))
            (fmul (fl (18 / 1000)) w)) (fmul (fl (7 / 100)) t))
            (fmul (- fl (18 / 1000)) \<bar>fsub a 20\<bar>)) \<and>
   calc_kwh_generalized 500 50 3 10 30 ''winter'' = Inr (fl (89345 / 1000))"
proof (intro conjI)
  show "calc_kwh_generalized 500 50 3 10 30 ''winter'' = Inr (fl (89345 / 1000))"
    by (rule calc_kwh_examples)
qed (simp_all add: calc_kwh_generalized_def dict_get_def coefficients_def)

theorem calc_kwh_formula_witness:
  "fadd (fadd (fadd (fadd (fmul (fl (20 / 100)) 1000) (fmul (- fl (25 / 1000)) 100))
            (fmul (fl (2 / 100)) 10)) (fmul (fl (6 / 100)) 1))
            (fmul (- fl (15 / 1000)) \<bar>fsub 10 30\<bar>) = 3473753056330383 / 17592186044416"
proof -
  from calc_kwh_formula [of 1000 100 10 1 10]
  have "calc_kwh_generalized 1000 100 10 1 10 ''spring'' =
     Inr (fadd (fadd (fadd (fadd (fmul (fl (20 / 100)) 1000) (fmul (- fl (25 / 1000)) 100))
            (fmul (fl (2 / 100)) 10)) (fmul (fl (6 / 100)) 1))
            (fmul (- fl (15 / 1000)) \<bar>fsub 10 30\<bar>))"
    by blast
  then show ?thesis unfolding calc_kwh_examples by (simp only: sum.inject)
qed

section \<open>Stored parameters and their ranges\<close>

subsection \<open>Auxiliary facts: rounding never crosses an integer\<close>

text \<open>Below \<open>2^53\<close> the binary64 numbers are spaced by one over a power of two, so
  every integer is one of them and rounding to nearest cannot cross it. Hence a draw lies
  between the bounds of its range, and so does the draw rounded to two decimals. Row
  \<open>i\<close> is built from the five samples that start at position \<open>n + 5 * i\<close>.\<close>

lemma round_half_even_bounds: "\<lfloor>y\<rfloor> \<le> round_half_even y \<and> round_half_even y \<le> \<lceil>y\<rceil>"
proof (cases "y = of_int \<lfloor>y\<rfloor>")
  case True
  then have "y - of_int \<lfloor>y\<rfloor> = 0" by simp
  then have "round_half_even y = \<lfloor>y\<rfloor>" by (simp add: round_half_even_def Let_def)
  then show ?thesis by (simp add: floor_le_ceiling)
next
  case False
  then have "\<lceil>y\<rceil> = \<lfloor>y\<rfloor> + 1" by (simp add: ceiling_altdef)
  then show ?thesis by (simp add: round_half_even_def Let_def)
qed

lemma binade_le_52:
  assumes "\<bar>x\<bar> < 2 ^ 53"
  shows "binade x \<le> 52"
proof (cases "1 \<le> \<bar>x\<bar>")
  case True
  from assms have "\<lfloor>\<bar>x\<bar>\<rfloor> < 2 ^ nat 53" by (simp add: floor_less_iff)
  then have "bitlen \<lfloor>\<bar>x\<bar>\<rfloor> \<le> 53" by (simp only: bitlen_le_iff_power) simp
  with True show ?thesis by (simp add: binade_def)
next
  case False
  have "0 \<le> bitlen (\<lceil>1 / \<bar>x\<bar>\<rceil> - 1)" by (rule bitlen_nonneg)
  with False show ?thesis by (simp add: binade_def)
qed

lemma ulp_reciprocal:
  assumes "\<bar>x\<bar> < 2 ^ 53"
  obtains m :: nat where "0 < m" "ulp x = 1 / of_nat m"
proof -
  define k where "k = max (binade x - 52) (- 1074)"
  from binade_le_52 [OF assms] have k: "k \<le> 0" by (simp add: k_def)
  have "ulp x = power_int 2 k" by (simp add: ulp_def k_def)
  also from k have "\<dots> = 1 / of_nat (2 ^ nat (- k))"
    by (cases "k = 0") (simp_all add: power_int_def field_simps)
  finally have "ulp x = 1 / of_nat (2 ^ nat (- k))" .
  moreover have "(0::nat) < 2 ^ nat (- k)" by simp
  ultimately show ?thesis using that by blast
qed

lemma fl_int_bounds:
  assumes "\<bar>x\<bar> < 2 ^ 53"
  shows "of_int a \<le> x \<Longrightarrow> of_int a \<le> fl x" and "x \<le> of_int b \<Longrightarrow> fl x \<le> of_int b"
proof -
  obtain m :: nat where m: "0 < m" "ulp x = 1 / of_nat m"
    using ulp_reciprocal [OF assms] by blast
  have flx: "fl x = of_int (round_half_even (x * of_nat m)) / of_nat m"
    by (simp add: fl_def m round_half_even_def)
  have mpos: "(0::rat) < of_nat m" using m(1) by simp
  show "of_int a \<le> fl x" if "of_int a \<le> x"
  proof -
    from that mpos have "of_int (a * int m) \<le> x * of_nat m" by simp
    then have "a * int m \<le> \<lfloor>x * of_nat m\<rfloor>" by (simp only: le_floor_iff)
    also have "\<dots> \<le> round_half_even (x * of_nat m)" by (simp add: round_half_even_bounds)
    finally have "(of_int (a * int m) :: rat) \<le> of_int (round_half_even (x * of_nat m))"
      by (simp only: of_int_le_iff)
    then show ?thesis using mpos by (simp add: flx le_divide_eq)
  qed
  show "fl x \<le> of_int b" if "x \<le> of_int b"
  proof -
    from that mpos have "x * of_nat m \<le> of_int (b * int m)" by simp
    then have "\<lceil>x * of_nat m\<rceil> \<le> b * int m" by (simp only: ceiling_le_iff)
    with round_half_even_bounds [of "x * of_nat m"]
    have "round_half_even (x * of_nat m) \<le> b * int m" by linarith
    then have "(of_int (round_half_even (x * of_nat m)) :: rat) \<le> of_int (b * int m)"
      by (simp only: of_int_le_iff)
    then show ?thesis using mpos by (simp add: flx divide_le_eq)
  qed
qed

lemma fl_of_int:
  assumes "\<bar>n\<bar> < 2 ^ 53"
  shows "fl (of_int n) = of_int n"
proof -
  from assms have "\<bar>of_int n :: rat\<bar> < 2 ^ 53"
    by (metis of_int_abs of_int_less_iff of_int_numeral of_int_power)
  from fl_int_bounds(1) [OF this, of n] fl_int_bounds(2) [OF this, of n] show ?thesis by simp
qed

lemma decimal_round_ge:
  assumes "of_int a \<le> x"
  shows "of_int a \<le> (of_int (round_half_even (x * 100)) / 100 :: rat)"
proof -
  from assms have "of_int (a * 100) \<le> x * 100" by simp
  then have "a * 100 \<le> \<lfloor>x * 100\<rfloor>" by (simp only: le_floor_iff)
  also have "\<dots> \<le> round_half_even (x * 100)" by (simp add: round_half_even_bounds)
  finally have "(of_int (a * 100) :: rat) \<le> of_int (round_half_even (x * 100))"
    by (simp only: of_int_le_iff)
  then show ?thesis by (simp add: le_divide_eq)
qed

lemma decimal_round_le:
  assumes "x \<le> of_int b"
  shows "(of_int (round_half_even (x * 100)) / 100 :: rat) \<le> of_int b"
proof -
  from assms have "x * 100 \<le> of_int (b * 100)" by simp
  then have "\<lceil>x * 100\<rceil> \<le> b * 100" by (simp only: ceiling_le_iff)
  with round_half_even_bounds [of "x * 100"] have "round_half_even (x * 100) \<le> b * 100" by linarith
  then have "(of_int (round_half_even (x * 100)) :: rat) \<le> of_int (b * 100)"
    by (simp only: of_int_le_iff)
  then show ?thesis by (simp add: divide_le_eq)
qed

lemma between_ints_small:
  fixes x :: rat
  assumes "of_int lo \<le> x" "x \<le> of_int hi" "- (2 ^ 51) \<le> lo" "hi \<le> 2 ^ 51"
  shows "\<bar>x\<bar> < 2 ^ 53"
proof -
  from assms(3) have "(of_int (- (2 ^ 51)) :: rat) \<le> of_int lo" by (simp only: of_int_le_iff)
  moreover from assms(4) have "(of_int hi :: rat) \<le> of_int (2 ^ 51)" by (simp only: of_int_le_iff)
  ultimately show ?thesis using assms(1,2) by simp
qed

lemma round2_int_bounds:
  assumes "of_int lo \<le> x" "x \<le> of_int hi" "- (2 ^ 51) \<le> lo" "hi \<le> 2 ^ 51"
  shows "of_int lo \<le> round2 x \<and> round2 x \<le> of_int hi"
proof -
  let ?y = "of_int (round_half_even (x * 100)) / 100 :: rat"
  have y: "of_int lo \<le> ?y" "?y \<le> of_int hi"
    by (rule decimal_round_ge [OF assms(1)], rule decimal_round_le [OF assms(2)])
  have small: "\<bar>?y\<bar> < 2 ^ 53" by (rule between_ints_small [OF y assms(3,4)])
  show ?thesis unfolding round2_def
    using fl_int_bounds [OF small] y by blast
qed

lemma uniform_sample_int_bounds:
  assumes v: "0 \<le> v" "v < 1" and r: "fst r \<le> snd r" "- (2 ^ 51) \<le> fst r" "snd r \<le> 2 ^ 51"
  shows "of_int (fst r) \<le> uniform_sample r v \<and> uniform_sample r v \<le> of_int (snd r)"
proof -
  obtain lo hi where lohi: "r = (lo, hi)" by (cases r)
  from r have b: "lo \<le> hi" "- (2 ^ 51) \<le> lo" "hi \<le> 2 ^ 51" by (simp_all add: lohi)
  have flo: "fl (of_int lo) = of_int lo" using b by (intro fl_of_int) simp
  have fhi: "fl (of_int hi) = of_int hi" using b by (intro fl_of_int) simp
  have "fsub (of_int hi) (of_int lo) = fl (of_int (hi - lo))" by (simp add: fsub_def)
  also have "\<dots> = of_int (hi - lo)" using b by (intro fl_of_int) simp
  finally have scale: "fsub (of_int hi) (of_int lo) = of_int (hi - lo)" .
  let ?p = "fmul (of_int (hi - lo)) v"
  have d: "(0::rat) \<le> of_int (hi - lo)" using b(1) by simp
  have p0: "of_int 0 \<le> of_int (hi - lo) * v" using d v(1) by simp
  have "of_int (hi - lo) * v \<le> of_int (hi - lo) * 1"
    using d v(2) by (intro mult_left_mono) auto
  then have p1: "of_int (hi - lo) * v \<le> of_int (hi - lo)" by simp
  have "- (2 ^ 51) \<le> (0::int)" "hi - lo \<le> 2 ^ 52" using b by simp_all
  have psmall: "\<bar>of_int (hi - lo) * v\<bar> < 2 ^ 53"
  proof -
    have "(of_int (hi - lo) :: rat) \<le> of_int (2 ^ 52)" using b by (simp only: of_int_le_iff) simp
    with p0 p1 show ?thesis by simp
  qed
  from fl_int_bounds [OF psmall] p0 p1 have p: "0 \<le> ?p" "?p \<le> of_int (hi - lo)"
    unfolding fmul_def by (metis of_int_0)+
  have s0: "of_int lo \<le> of_int lo + ?p" using p(1) by simp
  have s1: "of_int lo + ?p \<le> of_int hi" using p(2) by simp
  have ssmall: "\<bar>of_int lo + ?p\<bar> < 2 ^ 53" by (rule between_ints_small [OF s0 s1 b(2,3)])
  from fl_int_bounds [OF ssmall] s0 s1
  have "of_int lo \<le> fadd (of_int lo) ?p \<and> fadd (of_int lo) ?p \<le> of_int hi"
    unfolding fadd_def by blast
  then show ?thesis by (simp add: uniform_sample_def lohi Let_def flo fhi scale)
qed

lemma stored_value_bounds:
  assumes "0 \<le> v \<and> v < 1" "fst r \<le> snd r \<and> - (2 ^ 51) \<le> fst r \<and> snd r \<le> 2 ^ 51"
  shows "of_int (fst r) \<le> round2 (uniform_sample r v) \<and>
         round2 (uniform_sample r v) \<le> of_int (snd r)"
proof -
  from assms have "of_int (fst r) \<le> uniform_sample r v \<and> uniform_sample r v \<le> of_int (snd r)"
    by (intro uniform_sample_int_bounds) simp_all
  with assms(2) show ?thesis by (intro round2_int_bounds) simp_all
qed

lemma record_fields_at:
  assumes gen: "generate_seasonal_data s ms fr yr (u, n) = Inr (recs, g')"
    and idx: "i < length recs"
  shows "\<exists>k. calc_kwh_generalized
              (fst (uniform (irradiance_range fr) (u, n + 5 * i)))
              (fst (uniform (humidity_range fr) (u, n + 5 * i + 1)))
              (fst (uniform (wind_range fr) (u, n + 5 * i + 2)))
              (fst (uniform (temp_range fr) (u, n + 5 * i + 3)))
              (fst (uniform (tilt_range fr) (u, n + 5 * i + 4))) s = Inr k \<and>
            kwh (recs ! i) = round2 k \<and>
            irradiance (recs ! i) = round2 (fst (uniform (irradiance_range fr) (u, n + 5 * i))) \<and>
            humidity (recs ! i) = round2 (fst (uniform (humidity_range fr) (u, n + 5 * i + 1))) \<and>
            wind_speed (recs ! i) = round2 (fst (uniform (wind_range fr) (u, n + 5 * i + 2))) \<and>
            ambient_temperature (recs ! i) = round2 (fst (uniform (temp_range fr) (u, n + 5 * i + 3))) \<and>
            tilt_angle (recs ! i) = round2 (fst (uniform (tilt_range fr) (u, n + 5 * i + 4))) \<and>
            season (recs ! i) = s"
proof -
  from generate_char [OF gen] idx have mr:
    "make_record s (month (recs ! i)) fr yr (day (recs ! i)) (u, n + 5 * i)
       = Inr (recs ! i, (u, n + 5 * i + 5))"
    by blast
  from make_record_fields(11) [OF mr] obtain k where
    k: "calc_kwh_generalized
          (uniform_sample (irradiance_range fr) (u (n + 5 * i)))
          (uniform_sample (humidity_range fr) (u (n + 5 * i + 1)))
          (uniform_sample (wind_range fr) (u (n + 5 * i + 2)))
          (uniform_sample (temp_range fr) (u (n + 5 * i + 3)))
          (uniform_sample (tilt_range fr) (u (n + 5 * i + 4))) s = Inr k"
      "kwh (recs ! i) = round2 k"
    by blast
  note f = make_record_fields(4,6-10) [OF mr]
  show ?thesis
    unfolding uniform_at fst_conv using k f by (intro exI [of _ k] conjI)
qed

lemma winter_2024_length:
  assumes "generate_seasonal_data ''winter'' [''November'', ''December'', ''January'', ''February'']
             fr 2024 (u, n) = Inr (recs, g')"
  shows "length recs = 121"
proof -
  from generate_char [OF assms] obtain ns where
    ns: "map (\<lambda>m. get_days_in_month m 2024) [''November'', ''December'', ''January'', ''February'']
           = map Inr ns" and
    pairs: "map (\<lambda>r. (month r, day r)) recs =
      concat (map (\<lambda>(m, k). map (Pair m) [1..k])
        (zip [''November'', ''December'', ''January'', ''February''] ns))"
    by blast
  from ns have "map Inr [30, 31, 31, 29] = map (Inr :: int \<Rightarrow> py_error + int) ns"
    using winter_days_2024 unfolding winter_months by simp
  then have "[30, 31, 31, 29] = ns" by (rule map_injective) simp
  with pairs have "length (map (\<lambda>r. (month r, day r)) recs) = 121" by auto
  then show ?thesis by simp
qed

lemma winter_2024_first:
  obtains recs g' where
    "generate_seasonal_data ''winter'' [''November'', ''December'', ''January'', ''February'']
       fr 2024 (u, n) = Inr (recs, g')" "0 < length recs" "hd recs = recs ! 0"
proof -
  from generate_season_ok [OF winter_cfg, of fr 2024 "(u, n)"] obtain recs g' where
    gen: "generate_seasonal_data ''winter'' [''November'', ''December'', ''January'', ''February'']
       fr 2024 (u, n) = Inr (recs, g')"
    unfolding winter_months by blast
  from winter_2024_length [OF gen] have "0 < length recs" by simp
  moreover from this have "hd recs = recs ! 0" by (simp add: hd_conv_nth)
  ultimately show ?thesis using gen that by blast
qed

lemma sample_near_one:
  "uniform_sample (300, 700) (131071 / 131072) = 5734375 / 8192"
  "round2 (5734375 / 8192) = 700"
  by code_simp+

text \<open>
  C3, as stated, fails: the stored value is the draw rounded to two decimals, and a draw
  in the last half hundredth below the upper bound is stored as the upper bound itself.
  With the winter ranges and the unit sample \<open>1 - 2^-17\<close> the irradiance draw is
  699.9969482421875, inside \<open>[300, 700)\<close>, and the first row stores 700.
\<close>

theorem stored_irradiance_reaches_max_counterexample:
  "fst (uniform (300, 700) (\<lambda>j. 131071 / 131072, 0)) = 5734375 / 8192 \<and>
   (5734375 / 8192 :: rat) < 700 \<and>
   map_sum id (irradiance \<circ> hd \<circ> fst)
     (generate_seasonal_data ''winter'' [''November'', ''December'', ''January'', ''February'']
        \<lparr>irradiance_range = (300, 700), humidity_range = (30, 70), wind_range = (1, 6),
         temp_range = (5, 20), tilt_range = (10, 40)\<rparr> 2024 (\<lambda>j. 131071 / 131072, 0)) = Inr 700"
proof -
  have d: "fst (uniform (300, 700) (\<lambda>j. 131071 / 131072, 0)) = 5734375 / 8192"
    unfolding uniform_at fst_conv by (rule sample_near_one)
  obtain recs g' where
    gen: "generate_seasonal_data ''winter'' [''November'', ''December'', ''January'', ''February'']
        \<lparr>irradiance_range = (300, 700), humidity_range = (30, 70), wind_range = (1, 6),
         temp_range = (5, 20), tilt_range = (10, 40)\<rparr> 2024 (\<lambda>j. 131071 / 131072, 0) = Inr (recs, g')"
    and len: "0 < length recs" and hd: "hd recs = recs ! 0"
    by (rule winter_2024_first)
  from record_fields_at [OF gen len] have
    "irradiance (recs ! 0) = round2 (fst (uniform (300, 700) (\<lambda>j. 131071 / 131072, 0)))"
    by auto
  then have "irradiance (hd recs) = 700" unfolding hd d sample_near_one .
  then show ?thesis using d gen by simp
qed

text \<open>
  C3, amended. When every unit sample lies in \<open>[0, 1)\<close> and each of the five ranges
  has its lower bound at most its upper bound, both of magnitude at most \<open>2^51\<close>, every
  row of a generated table stores, for each of the five parameters, a value between the
  lower and the upper bound of the parameter's range, both bounds included.
\<close>

theorem stored_parameters_in_closed_range:
  assumes unit: "\<forall>j. 0 \<le> u j \<and> u j < 1"
    and ord: "\<forall>r \<in> set [irradiance_range fr, humidity_range fr, wind_range fr,
                          temp_range fr, tilt_range fr].
                fst r \<le> snd r \<and> - (2 ^ 51) \<le> fst r \<and> snd r \<le> 2 ^ 51"
    and gen: "generate_seasonal_data s ms fr yr (u, n) = Inr (recs, g')"
    and idx: "i < length recs"
  shows "of_int (fst (irradiance_range fr)) \<le> irradiance (recs ! i) \<and>
         irradiance (recs ! i) \<le> of_int (snd (irradiance_range fr)) \<and>
         of_int (fst (humidity_range fr)) \<le> humidity (recs ! i) \<and>
         humidity (recs ! i) \<le> of_int (snd (humidity_range fr)) \<and>
         of_int (fst (wind_range fr)) \<le> wind_speed (recs ! i) \<and>
         wind_speed (recs ! i) \<le> of_int (snd (wind_range fr)) \<and>
         of_int (fst (temp_range fr)) \<le> ambient_temperature (recs ! i) \<and>
         ambient_temperature (recs ! i) \<le> of_int (snd (temp_range fr)) \<and>
         of_int (fst (tilt_range fr)) \<le> tilt_angle (recs ! i) \<and>
         tilt_angle (recs ! i) \<le> of_int (snd (tilt_range fr))"
proof -
  from record_fields_at [OF gen idx] have f:
    "irradiance (recs ! i) = round2 (fst (uniform (irradiance_range fr) (u, n + 5 * i)))"
    "humidity (recs ! i) = round2 (fst (uniform (humidity_range fr) (u, n + 5 * i + 1)))"
    "wind_speed (recs ! i) = round2 (fst (uniform (wind_range fr) (u, n + 5 * i + 2)))"
    "ambient_temperature (recs ! i) = round2 (fst (uniform (temp_range fr) (u, n + 5 * i + 3)))"
    "tilt_angle (recs ! i) = round2 (fst (uniform (tilt_range fr) (u, n + 5 * i + 4)))"
    by blast+
  have b: "of_int (fst r) \<le> round2 (fst (uniform r (u, j))) \<and>
           round2 (fst (uniform r (u, j))) \<le> of_int (snd r)"
    if "fst r \<le> snd r \<and> - (2 ^ 51) \<le> fst r \<and> snd r \<le> 2 ^ 51" for r j
    unfolding uniform_at fst_conv using unit that by (intro stored_value_bounds) blast+
  let ?rs = "[irradiance_range fr, humidity_range fr, wind_range fr, temp_range fr, tilt_range fr]"
  from ord have o: "fst r \<le> snd r \<and> - (2 ^ 51) \<le> fst r \<and> snd r \<le> 2 ^ 51"
    if "r \<in> set ?rs" for r using that by blast
  have m: "irradiance_range fr \<in> set ?rs" "humidity_range fr \<in> set ?rs"
    "wind_range fr \<in> set ?rs" "temp_range fr \<in> set ?rs" "tilt_range fr \<in> set ?rs"
    by simp_all
  from b [OF o [OF m(1)]] b [OF o [OF m(2)]] b [OF o [OF m(3)]] b [OF o [OF m(4)]]
    b [OF o [OF m(5)]]
  show ?thesis unfolding f by blast
qed

theorem stored_parameters_in_closed_range_witness:
  "\<exists>recs g'.
     generate_seasonal_data ''winter'' [''November'', ''December'', ''January'', ''February'']
        \<lparr>irradiance_range = (300, 700), humidity_range = (30, 70), wind_range = (1, 6),
         temp_range = (5, 20), tilt_range = (10, 40)\<rparr> 2024 (\<lambda>j. 131071 / 131072, 0) = Inr (recs, g') \<and>
     0 < length recs \<and>
     300 \<le> irradiance (recs ! 0) \<and> irradiance (recs ! 0) \<le> 700 \<and>
     30 \<le> humidity (recs ! 0) \<and> humidity (recs ! 0) \<le> 70 \<and>
     1 \<le> wind_speed (recs ! 0) \<and> wind_speed (recs ! 0) \<le> 6 \<and>
     5 \<le> ambient_temperature (recs ! 0) \<and> ambient_temperature (recs ! 0) \<le> 20 \<and>
     10 \<le> tilt_angle (recs ! 0) \<and> tilt_angle (recs ! 0) \<le> 40"
proof -
  obtain recs g' where
    gen: "generate_seasonal_data ''winter'' [''November'', ''December'', ''January'', ''February'']
        \<lparr>irradiance_range = (300, 700), humidity_range = (30, 70), wind_range = (1, 6),
         temp_range = (5, 20), tilt_range = (10, 40)\<rparr> 2024 (\<lambda>j. 131071 / 131072, 0) = Inr (recs, g')"
    and len: "0 < length recs"
    by (rule winter_2024_first)
  have unit: "\<forall>j::nat. (0::rat) \<le> 131071 / 131072 \<and> (131071 / 131072 :: rat) < 1" by simp
  from stored_parameters_in_closed_range [OF unit _ gen len]
  have "300 \<le> irradiance (recs ! 0) \<and> irradiance (recs ! 0) \<le> 700 \<and>
     30 \<le> humidity (recs ! 0) \<and> humidity (recs ! 0) \<le> 70 \<and>
     1 \<le> wind_speed (recs ! 0) \<and> wind_speed (recs ! 0) \<le> 6 \<and>
     5 \<le> ambient_temperature (recs ! 0) \<and> ambient_temperature (recs ! 0) \<le> 20 \<and>
     10 \<le> tilt_angle (recs ! 0) \<and> tilt_angle (recs ! 0) \<le> 40"
    by simp
  with gen len show ?thesis by (intro exI [of _ recs] exI [of _ g']) simp
qed

section \<open>The stored energy comes from the unrounded draws\<close>

subsection \<open>Auxiliary facts: two example rows\<close>

lemma example_row_values:
  "uniform_sample (300, 700) (33 / 64) = 2025 / 4"
  "uniform_sample (30, 70) (5 / 32) = 145 / 4"
  "uniform_sample (1, 6) (7 / 16) = 51 / 16"
  "uniform_sample (5, 20) (1 / 8) = 55 / 8"
  "uniform_sample (10, 40) (33 / 64) = 815 / 32"
  "round2 (2025 / 4) = 2025 / 4"
  "round2 (145 / 4) = 145 / 4"
  "round2 (51 / 16) = fl (319 / 100)"
  "round2 (55 / 8) = fl (688 / 100)"
  "round2 (815 / 32) = fl (2547 / 100)"
  by code_simp+

lemma example_row_energy:
  "map_sum id round2 (calc_kwh_generalized (2025 / 4) (145 / 4) (51 / 16) (55 / 8) (815 / 32) ''winter'')
     = Inr (fl (9054 / 100))"
  "map_sum id round2
     (calc_kwh_generalized (2025 / 4) (145 / 4) (fl (319 / 100)) (fl (688 / 100)) (fl (2547 / 100))
        ''winter'') = Inr (fl (9055 / 100))"
  by code_simp+

lemma example_row_differs: "fl (9054 / 100) \<noteq> fl (9055 / 100)"
  by code_simp

lemma half_row_values:
  "uniform_sample (300, 700) (1 / 2) = 500"
  "uniform_sample (30, 70) (1 / 2) = 50"
  "uniform_sample (1, 6) (1 / 2) = 7 / 2"
  "uniform_sample (5, 20) (1 / 2) = 25 / 2"
  "uniform_sample (10, 40) (1 / 2) = 25"
  "round2 25 = 25"
  "map_sum id round2 (calc_kwh_generalized 500 50 (7 / 2) (25 / 2) 25 ''winter'')
     = Inr (fl (8945 / 100))"
  by code_simp+

text \<open>
  C9. Row \<open>i\<close> of a generated table is made from the five draws at the positions
  \<open>n + 5 * i\<close> to \<open>n + 5 * i + 4\<close> of the random source: its \<open>kwh\<close> field is the
  energy formula on these unrounded draws, rounded to two decimals, while each parameter
  field is its draw rounded to two decimals. The stored energy is therefore not a function
  of the stored parameters: for winter with the draws 506.25, 36.25, 3.1875, 6.875 and
  25.46875 the row stores the parameters 506.25, 36.25, 3.19, 6.88 and 25.47 and the
  energy 90.54, and the formula on the stored parameters, rounded to two decimals, gives
  90.55.
\<close>

theorem stored_kwh_rounds_unrounded_energy:
  "(generate_seasonal_data s ms fr yr (u, n) = Inr (recs, g') \<and> i < length recs \<longrightarrow>
     (\<exists>k. calc_kwh_generalized
              (fst (uniform (irradiance_range fr) (u, n + 5 * i)))
              (fst (uniform (humidity_range fr) (u, n + 5 * i + 1)))
              (fst (uniform (wind_range fr) (u, n + 5 * i + 2)))
              (fst (uniform (temp_range fr) (u, n + 5 * i + 3)))
              (fst (uniform (tilt_range fr) (u, n + 5 * i + 4))) s = Inr k \<and>
          kwh (recs ! i) = round2 k \<and>
          irradiance (recs ! i) = round2 (fst (uniform (irradiance_range fr) (u, n + 5 * i))) \<and>
          humidity (recs ! i) = round2 (fst (uniform (humidity_range fr) (u, n + 5 * i + 1))) \<and>
          wind_speed (recs ! i) = round2 (fst (uniform (wind_range fr) (u, n + 5 * i + 2))) \<and>
          ambient_temperature (recs ! i) = round2 (fst (uniform (temp_range fr) (u, n + 5 * i + 3))) \<and>
          tilt_angle (recs ! i) = round2 (fst (uniform (tilt_range fr) (u, n + 5 * i + 4))) \<and>
          season (recs ! i) = s)) \<and>
   map_sum id
     ((\<lambda>r. (kwh r,
            map_sum id round2
              (calc_kwh_generalized (irradiance r) (humidity r) (wind_speed r)
                 (ambient_temperature r) (tilt_angle r) (season r)))) \<circ> hd \<circ> fst)
     (generate_seasonal_data ''winter'' [''November'', ''December'', ''January'', ''February'']
        \<lparr>irradiance_range = (300, 700), humidity_range = (30, 70), wind_range = (1, 6),
         temp_range = (5, 20), tilt_range = (10, 40)\<rparr> 2024
        (\<lambda>j. [33 / 64, 5 / 32, 7 / 16, 1 / 8, 33 / 64] ! (j mod 5), 0))
     = Inr (fl (9054 / 100), Inr (fl (9055 / 100))) \<and>
   fl (9054 / 100) \<noteq> fl (9055 / 100)"
proof (intro conjI impI)
  assume "generate_seasonal_data s ms fr yr (u, n) = Inr (recs, g') \<and> i < length recs"
  then show "\<exists>k. calc_kwh_generalized
              (fst (uniform (irradiance_range fr) (u, n + 5 * i)))
              (fst (uniform (humidity_range fr) (u, n + 5 * i + 1)))
              (fst (uniform (wind_range fr) (u, n + 5 * i + 2)))
              (fst (uniform (temp_range fr) (u, n + 5 * i + 3)))
              (fst (uniform (tilt_range fr) (u, n + 5 * i + 4))) s = Inr k \<and>
          kwh (recs ! i) = round2 k \<and>
          irradiance (recs ! i) = round2 (fst (uniform (irradiance_range fr) (u, n + 5 * i))) \<and>
          humidity (recs ! i) = round2 (fst (uniform (humidity_range fr) (u, n + 5 * i + 1))) \<and>
          wind_speed (recs ! i) = round2 (fst (uniform (wind_range fr) (u, n + 5 * i + 2))) \<and>
          ambient_temperature (recs ! i) = round2 (fst (uniform (temp_range fr) (u, n + 5 * i + 3))) \<and>
          tilt_angle (recs ! i) = round2 (fst (uniform (tilt_range fr) (u, n + 5 * i + 4))) \<and>
          season (recs ! i) = s"
    using record_fields_at by blast
next
  let ?us = "\<lambda>j::nat. [33 / 64, 5 / 32, 7 / 16, 1 / 8, 33 / 64 :: rat] ! (j mod 5)"
  let ?fr = "\<lparr>irradiance_range = (300, 700), humidity_range = (30, 70), wind_range = (1, 6),
           temp_range = (5, 20), tilt_range = (10, 40)\<rparr>"
  let ?F = "\<lambda>r. (kwh r,
            map_sum id round2
              (calc_kwh_generalized (irradiance r) (humidity r) (wind_speed r)
                 (ambient_temperature r) (tilt_angle r) (season r)))"
  obtain recs g' where
    gen: "generate_seasonal_data ''winter'' [''November'', ''December'', ''January'', ''February'']
        ?fr 2024 (?us, 0) = Inr (recs, g')"
    and len: "0 < length recs" and hd: "hd recs = recs ! 0"
    by (rule winter_2024_first)
  have d: "fst (uniform (irradiance_range ?fr) (?us, 0 + 5 * 0)) = 2025 / 4"
    "fst (uniform (humidity_range ?fr) (?us, 0 + 5 * 0 + 1)) = 145 / 4"
    "fst (uniform (wind_range ?fr) (?us, 0 + 5 * 0 + 2)) = 51 / 16"
    "fst (uniform (temp_range ?fr) (?us, 0 + 5 * 0 + 3)) = 55 / 8"
    "fst (uniform (tilt_range ?fr) (?us, 0 + 5 * 0 + 4)) = 815 / 32"
    by (simp_all add: uniform_at example_row_values)
  from record_fields_at [OF gen len] obtain k where
    k: "calc_kwh_generalized (2025 / 4) (145 / 4) (51 / 16) (55 / 8) (815 / 32) ''winter'' = Inr k" and
    f0: "kwh (recs ! 0) = round2 k" "irradiance (recs ! 0) = round2 (2025 / 4)"
      "humidity (recs ! 0) = round2 (145 / 4)" "wind_speed (recs ! 0) = round2 (51 / 16)"
      "ambient_temperature (recs ! 0) = round2 (55 / 8)" "tilt_angle (recs ! 0) = round2 (815 / 32)"
      "season (recs ! 0) = ''winter''"
    unfolding d by blast
  from example_row_energy(1) have k': "round2 k = fl (9054 / 100)"
    unfolding k by simp
  note f = f0 [unfolded k' example_row_values]
  have "map_sum id (?F \<circ> hd \<circ> fst) (Inr (recs, g') :: py_error + daily_record list \<times> rng) =
      Inr (kwh (recs ! 0), map_sum id round2
        (calc_kwh_generalized (irradiance (recs ! 0)) (humidity (recs ! 0))
          (wind_speed (recs ! 0)) (ambient_temperature (recs ! 0)) (tilt_angle (recs ! 0))
          (season (recs ! 0))))"
    by (simp add: hd)
  also have "\<dots> = Inr (fl (9054 / 100), Inr (fl (9055 / 100)))"
    by (simp only: f example_row_energy)
  finally show "map_sum id (?F \<circ> hd \<circ> fst)
     (generate_seasonal_data ''winter'' [''November'', ''December'', ''January'', ''February'']
        ?fr 2024 (?us, 0))
     = Inr (fl (9054 / 100), Inr (fl (9055 / 100)))"
    unfolding gen .
next
  show "fl (9054 / 100) \<noteq> fl (9055 / 100)" by (rule example_row_differs)
qed

theorem stored_kwh_rounds_unrounded_energy_witness:
  "\<exists>recs g'.
     generate_seasonal_data ''winter'' [''November'', ''December'', ''January'', ''February'']
        \<lparr>irradiance_range = (300, 700), humidity_range = (30, 70), wind_range = (1, 6),
         temp_range = (5, 20), tilt_range = (10, 40)\<rparr> 2024 (\<lambda>j. 1 / 2, 0) = Inr (recs, g') \<and>
     0 < length recs \<and>
     kwh (recs ! 0) = fl (8945 / 100) \<and> tilt_angle (recs ! 0) = 25"
proof -
  let ?fr = "\<lparr>irradiance_range = (300, 700), humidity_range = (30, 70), wind_range = (1, 6),
           temp_range = (5, 20), tilt_range = (10, 40)\<rparr>"
  let ?us = "\<lambda>j::nat. 1 / 2 :: rat"
  obtain recs g' where
    gen: "generate_seasonal_data ''winter'' [''November'', ''December'', ''January'', ''February'']
        ?fr 2024 (?us, 0) = Inr (recs, g')"
    and len: "0 < length recs"
    by (rule winter_2024_first)
  have d: "fst (uniform (irradiance_range ?fr) (?us, 0 + 5 * 0)) = 500"
    "fst (uniform (humidity_range ?fr) (?us, 0 + 5 * 0 + 1)) = 50"
    "fst (uniform (wind_range ?fr) (?us, 0 + 5 * 0 + 2)) = 7 / 2"
    "fst (uniform (temp_range ?fr) (?us, 0 + 5 * 0 + 3)) = 25 / 2"
    "fst (uniform (tilt_range ?fr) (?us, 0 + 5 * 0 + 4)) = 25"
    by (simp_all add: uniform_at half_row_values)
  from stored_kwh_rounds_unrounded_energy [of "''winter''"
      "[''November'', ''December'', ''January'', ''February'']" ?fr 2024 ?us 0 recs g' 0] gen len
  obtain k where
    k: "calc_kwh_generalized 500 50 (7 / 2) (25 / 2) 25 ''winter'' = Inr k" and
    f0: "kwh (recs ! 0) = round2 k" "tilt_angle (recs ! 0) = round2 25"
    unfolding d by blast
  from half_row_values(7) have k': "round2 k = fl (8945 / 100)"
    unfolding k by simp
  note f = f0 [unfolded k' half_row_values]
  from gen len f show ?thesis by (intro exI [of _ recs] exI [of _ g'] conjI)
qed

subsection \<open>Auxiliary facts: date strings\<close>

lemma append_less_append: "(xs @ ys < xs @ zs) = (ys < (zs :: 'a :: linorder list))"
  by (induction xs) (simp_all add: Cons_less_Cons)

lemma date_suffix_less: "''-01-01'' < ''-12-31''"
  by (simp add: Cons_less_Cons less_char_def)

lemma fmt_02d_examples: "fmt_02d 12 = ''12''" "fmt_02d 31 = ''31''" "fmt_02d 1 = ''01''"
  "fmt_02d 11 = ''11''" "str_int 2024 = ''2024''"
  by code_simp+

lemma map_month_pairs:
  "map fst (concat (map (\<lambda>(m, k). map (Pair m) [1..k]) zs)) =
   concat (map (\<lambda>(m, k). replicate (nat k) m) zs)"
  by (induction zs) (auto simp: map_replicate_const o_def)

lemma record_date_at:
  assumes gen: "generate_seasonal_data s ms fr yr (u, n) = Inr (recs, g')"
    and idx: "i < length recs"
  shows "\<exists>num. dict_get MONTH_NAME_TO_NUM (month (recs ! i)) = Inr num \<and>
     date (recs ! i) = str_int yr @ ''-'' @ fmt_02d num @ ''-'' @ fmt_02d (day (recs ! i))"
proof -
  from generate_char [OF gen] idx have
    "make_record s (month (recs ! i)) fr yr (day (recs ! i)) (u, n + 5 * i)
       = Inr (recs ! i, (u, n + 5 * i + 5))"
    by blast
  then show ?thesis by (rule make_record_fields(5))
qed

lemma winter_days_any:
  "map (\<lambda>m. get_days_in_month m yr) [''November'', ''December'', ''January'', ''February'']
     = map Inr [30, 31, 31, if isleap yr then 29 else 28]"
  by (simp add: get_days_in_month_def dict_get_def MONTH_NAME_TO_NUM_def
      monthrange_ndays_def mdays_def)

lemma month_num_examples:
  "dict_get MONTH_NAME_TO_NUM ''December'' = Inr 12" "dict_get MONTH_NAME_TO_NUM ''January'' = Inr 1"
  "dict_get MONTH_NAME_TO_NUM ''November'' = Inr 11"
  by (simp_all add: dict_get_def MONTH_NAME_TO_NUM_def)

lemma winter_order:
  assumes gen: "generate_seasonal_data ''winter'' [''November'', ''December'', ''January'', ''February'']
       fr yr (u, n) = Inr (recs, g')"
  shows "map month recs = replicate 30 ''November'' @ replicate 31 ''December'' @
           replicate 31 ''January'' @ replicate (if isleap yr then 29 else 28) ''February''"
    and "date (recs ! 0) = str_int yr @ ''-11-01''"
    and "date (recs ! 60) = str_int yr @ ''-12-31''"
    and "date (recs ! 61) = str_int yr @ ''-01-01''"
    and "date (recs ! 61) < date (recs ! 60)"
    and "\<not> sorted (map date recs)"
proof -
  let ?k = "if isleap yr then 29 else 28 :: int"
  from generate_char [OF gen] obtain ns where
    ns: "map (\<lambda>m. get_days_in_month m yr) [''November'', ''December'', ''January'', ''February'']
           = map Inr ns" and
    pairs: "map (\<lambda>r. (month r, day r)) recs =
      concat (map (\<lambda>(m, k). map (Pair m) [1..k])
        (zip [''November'', ''December'', ''January'', ''February''] ns))"
    by blast
  from ns have "map Inr [30, 31, 31, ?k] = map (Inr :: int \<Rightarrow> py_error + int) ns"
    unfolding winter_days_any .
  then have nseq: "[30, 31, 31, ?k] = ns" by (rule map_injective) simp
  have p: "map (\<lambda>r. (month r, day r)) recs =
      map (Pair ''November'') [1..30] @ map (Pair ''December'') [1..31] @
      map (Pair ''January'') [1..31] @ map (Pair ''February'') [1..?k]"
    unfolding pairs nseq [symmetric] by simp
  have "map month recs = map fst (map (\<lambda>r. (month r, day r)) recs)" by (simp add: o_def)
  also have "\<dots> = replicate 30 ''November'' @ replicate 31 ''December'' @
           replicate 31 ''January'' @ replicate (nat ?k) ''February''"
    unfolding p by (simp add: map_replicate_const o_def)
  finally show "map month recs = replicate 30 ''November'' @ replicate 31 ''December'' @
           replicate 31 ''January'' @ replicate (if isleap yr then 29 else 28) ''February''"
    by (simp split: if_splits)
  have len: "length recs = 92 + nat ?k"
  proof -
    have "length recs = length (map (\<lambda>r. (month r, day r)) recs)" by simp
    also have "\<dots> = 92 + nat ?k" unfolding p by simp
    finally show ?thesis .
  qed
  have i0: "0 < length recs" and i60: "60 < length recs" and i61: "61 < length recs"
    using len by simp_all
  have "map (\<lambda>r. (month r, day r)) recs ! 0 = (''November'', 1)"
    unfolding p by (simp add: nth_append)
  then have md0: "month (recs ! 0) = ''November''" "day (recs ! 0) = 1"
    using i0 by simp_all
  have "map (\<lambda>r. (month r, day r)) recs ! 60 = (''December'', 31)"
    unfolding p by (simp add: nth_append)
  then have md60: "month (recs ! 60) = ''December''" "day (recs ! 60) = 31"
    using i60 by simp_all
  have "map (\<lambda>r. (month r, day r)) recs ! 61 = (''January'', 1)"
    unfolding p by (simp add: nth_append)
  then have md61: "month (recs ! 61) = ''January''" "day (recs ! 61) = 1"
    using i61 by simp_all
  from record_date_at [OF gen i0] show d0: "date (recs ! 0) = str_int yr @ ''-11-01''"
    unfolding md0 month_num_examples by (auto simp: fmt_02d_examples)
  from record_date_at [OF gen i60] show d60: "date (recs ! 60) = str_int yr @ ''-12-31''"
    unfolding md60 month_num_examples by (auto simp: fmt_02d_examples)
  from record_date_at [OF gen i61] show d61: "date (recs ! 61) = str_int yr @ ''-01-01''"
    unfolding md61 month_num_examples by (auto simp: fmt_02d_examples)
  show lt: "date (recs ! 61) < date (recs ! 60)"
    unfolding d60 d61 append_less_append by (rule date_suffix_less)
  show "\<not> sorted (map date recs)"
  proof
    assume "sorted (map date recs)"
    then have "map date recs ! 60 \<le> map date recs ! 61"
      by (rule sorted_nth_mono) (use i61 in simp_all)
    then have "date (recs ! 60) \<le> date (recs ! 61)" using i60 i61 by simp
    with lt show False by simp
  qed
qed

section \<open>Dates, years and the order of the rows\<close>

text \<open>
  C10. For every season of the table the rows follow the season's month list, the days of
  each month in ascending order, and the date of every row is the selected year, the
  number of the row's month and the row's day, joined by dashes: one year for the whole
  table. For winter the months of the rows are 30 times November, 31 times December, 31
  times January and then February, all in the selected year; the row for 31 December
  (position 60) comes right before the row for 1 January (position 61), whose date
  string is the smaller one, so the dates are not in ascending order.
\<close>

theorem dataset_single_year_in_month_order:
  "(dict_get SEASONS_CONFIG s = Inr cfg \<longrightarrow>
     (\<exists>recs g' ns.
        generate_seasonal_data s (months cfg) fr yr g = Inr (recs, g') \<and>
        map (\<lambda>m. get_days_in_month m yr) (months cfg) = map Inr ns \<and>
        map (\<lambda>r. (month r, day r)) recs =
          concat (map (\<lambda>(m, k). map (Pair m) [1..k]) (zip (months cfg) ns)) \<and>
        (\<forall>i < length recs. \<exists>num.
           dict_get MONTH_NAME_TO_NUM (month (recs ! i)) = Inr num \<and>
           date (recs ! i) = str_int yr @ ''-'' @ fmt_02d num @ ''-'' @ fmt_02d (day (recs ! i))))) \<and>
   (\<exists>recs g'.
      generate_seasonal_data ''winter'' [''November'', ''December'', ''January'', ''February'']
        fr yr g = Inr (recs, g') \<and>
      map month recs = replicate 30 ''November'' @ replicate 31 ''December'' @
        replicate 31 ''January'' @ replicate (if isleap yr then 29 else 28) ''February'' \<and>
      date (recs ! 0) = str_int yr @ ''-11-01'' \<and>
      date (recs ! 60) = str_int yr @ ''-12-31'' \<and>
      date (recs ! 61) = str_int yr @ ''-01-01'' \<and>
      date (recs ! 61) < date (recs ! 60) \<and>
      \<not> sorted (map date recs))"
proof (intro conjI impI)
  assume cfg: "dict_get SEASONS_CONFIG s = Inr cfg"
  obtain u n where g: "g = (u, n)" by (cases g)
  from generate_season_ok [OF cfg] obtain recs g' where
    gen: "generate_seasonal_data s (months cfg) fr yr (u, n) = Inr (recs, g')"
    unfolding g by blast
  from generate_char [OF gen] obtain ns where
    ns: "map (\<lambda>m. get_days_in_month m yr) (months cfg) = map Inr ns" and
    pairs: "map (\<lambda>r. (month r, day r)) recs =
      concat (map (\<lambda>(m, k). map (Pair m) [1..k]) (zip (months cfg) ns))"
    by blast
  have dates: "\<forall>i < length recs. \<exists>num.
           dict_get MONTH_NAME_TO_NUM (month (recs ! i)) = Inr num \<and>
           date (recs ! i) = str_int yr @ ''-'' @ fmt_02d num @ ''-'' @ fmt_02d (day (recs ! i))"
    using record_date_at [OF gen] by blast
  from gen ns pairs dates
  show "\<exists>recs g' ns.
        generate_seasonal_data s (months cfg) fr yr g = Inr (recs, g') \<and>
        map (\<lambda>m. get_days_in_month m yr) (months cfg) = map Inr ns \<and>
        map (\<lambda>r. (month r, day r)) recs =
          concat (map (\<lambda>(m, k). map (Pair m) [1..k]) (zip (months cfg) ns)) \<and>
        (\<forall>i < length recs. \<exists>num.
           dict_get MONTH_NAME_TO_NUM (month (recs ! i)) = Inr num \<and>
           date (recs ! i) = str_int yr @ ''-'' @ fmt_02d num @ ''-'' @ fmt_02d (day (recs ! i)))"
    unfolding g by (intro exI [of _ recs] exI [of _ g'] exI [of _ ns] conjI)
next
  obtain u n where g: "g = (u, n)" by (cases g)
  from generate_season_ok [OF winter_cfg, of fr yr "(u, n)"] obtain recs g' where
    gen: "generate_seasonal_data ''winter'' [''November'', ''December'', ''January'', ''February'']
       fr yr (u, n) = Inr (recs, g')"
    unfolding winter_months by blast
  from gen winter_order [OF gen]
  show "\<exists>recs g'.
      generate_seasonal_data ''winter'' [''November'', ''December'', ''January'', ''February'']
        fr yr g = Inr (recs, g') \<and>
      map month recs = replicate 30 ''November'' @ replicate 31 ''December'' @
        replicate 31 ''January'' @ replicate (if isleap yr then 29 else 28) ''February'' \<and>
      date (recs ! 0) = str_int yr @ ''-11-01'' \<and>
      date (recs ! 60) = str_int yr @ ''-12-31'' \<and>
      date (recs ! 61) = str_int yr @ ''-01-01'' \<and>
      date (recs ! 61) < date (recs ! 60) \<and>
      \<not> sorted (map date recs)"
    unfolding g by (intro exI [of _ recs] exI [of _ g'] conjI)
qed

theorem dataset_single_year_in_month_order_witness:
  "\<exists>recs g'.
     dict_get SEASONS_CONFIG ''winter'' = Inr (snd (SEASONS_CONFIG ! 0)) \<and>
     generate_seasonal_data ''winter'' (months (snd (SEASONS_CONFIG ! 0)))
       (ranges (snd (SEASONS_CONFIG ! 0))) 2024 (\<lambda>j. 1 / 2, 0) = Inr (recs, g') \<and>
     length recs = 121 \<and>
     (\<exists>num. dict_get MONTH_NAME_TO_NUM (month (recs ! 120)) = Inr num \<and>
        date (recs ! 120) = ''2024-'' @ fmt_02d num @ ''-'' @ fmt_02d (day (recs ! 120))) \<and>
     date (recs ! 0) = ''2024-11-01'' \<and>
     date (recs ! 60) = ''2024-12-31'' \<and>
     date (recs ! 61) = ''2024-01-01''"
proof -
  let ?fr = "ranges (snd (SEASONS_CONFIG ! 0))"
  let ?g = "(\<lambda>j::nat. 1 / 2 :: rat, 0 :: nat)"
  note inst = dataset_single_year_in_month_order [of "''winter''" "snd (SEASONS_CONFIG ! 0)" ?fr 2024 ?g]
  from inst winter_cfg obtain recs g' where
    gen: "generate_seasonal_data ''winter'' (months (snd (SEASONS_CONFIG ! 0))) ?fr 2024 ?g = Inr (recs, g')" and
    dates: "\<forall>i < length recs. \<exists>num.
           dict_get MONTH_NAME_TO_NUM (month (recs ! i)) = Inr num \<and>
           date (recs ! i) = str_int 2024 @ ''-'' @ fmt_02d num @ ''-'' @ fmt_02d (day (recs ! i))"
    by blast
  from inst obtain recs2 g2 where
    gen2: "generate_seasonal_data ''winter'' [''November'', ''December'', ''January'', ''February'']
        ?fr 2024 ?g = Inr (recs2, g2)" and
    d: "date (recs2 ! 0) = str_int 2024 @ ''-11-01''"
       "date (recs2 ! 60) = str_int 2024 @ ''-12-31''"
       "date (recs2 ! 61) = str_int 2024 @ ''-01-01''"
    by blast
  from gen gen2 have same: "recs2 = recs" unfolding winter_months by simp
  from winter_2024_length [OF gen2] have len: "length recs = 121" unfolding same .
  then have "120 < length recs" by simp
  with dates have d120: "\<exists>num. dict_get MONTH_NAME_TO_NUM (month (recs ! 120)) = Inr num \<and>
        date (recs ! 120) = str_int 2024 @ ''-'' @ fmt_02d num @ ''-'' @ fmt_02d (day (recs ! 120))"
    by blast
  from winter_cfg gen len d120 d [unfolded same]
  show ?thesis
    unfolding fmt_02d_examples by (intro exI [of _ recs] exI [of _ g']) simp
qed

subsection \<open>Auxiliary facts: one run of the script\<close>

lemma data_display_prompt_iff:
  "(data_display ss sel yr = Inr [Info no_data_prompt]) = (solar_data ss = None)"
  by (cases "solar_data ss") (simp_all add: data_display_def)

lemma data_display_Some_no_prompt:
  "solar_data ss = Some df \<Longrightarrow> data_display ss sel yr \<noteq> Inr [Info p]"
  by (simp add: data_display_def)

lemma run_script_not_clicked:
  assumes "dict_get SEASONS_CONFIG (selected_season ui) = Inr cfg" "\<not> generate_clicked ui"
  shows "run_script ui ss g =
    (case data_display ss (selected_season ui) (selected_year ui) of
       Inl e \<Rightarrow> Inl e | Inr page \<Rightarrow> Inr (page, ss, g))"
  using assms by (simp add: run_script_def Let_def)

lemma run_script_clicked:
  assumes cfg: "dict_get SEASONS_CONFIG (selected_season ui) = Inr cfg" and "generate_clicked ui"
  shows "\<exists>df g1. run_script ui ss g =
    (case data_display (ss\<lparr>solar_data := Some df, current_season := Some (selected_season ui)\<rparr>)
            (selected_season ui) (selected_year ui) of
       Inl e \<Rightarrow> Inl e
     | Inr page \<Rightarrow> Inr (page, ss\<lparr>solar_data := Some df, current_season := Some (selected_season ui)\<rparr>, g1))"
proof -
  let ?fr = "if use_custom_params ui then custom_ranges ui else ranges cfg"
  from generate_season_ok [OF cfg, of ?fr "selected_year ui" g] obtain df g1 where
    "generate_seasonal_data (selected_season ui) (months cfg) ?fr (selected_year ui) g = Inr (df, g1)"
    by blast
  then show ?thesis using assms
    by (intro exI [of _ df] exI [of _ g1]) (auto simp: run_script_def Let_def)
qed

section \<open>The guard of the data display\<close>

text \<open>
  C8. The data display shows the prompt, and nothing else, exactly when the session state
  holds no generated table; with a table it shows the metrics and charts (or raises) and
  never the prompt. For a whole run of the script with a season of the table: the page is
  the prompt exactly when the session holds no table and the button was not pressed in
  this run, and then the session state and the random source are left as they were.
\<close>

theorem prompt_exactly_without_data:
  "((data_display ss sel yr = Inr [Info no_data_prompt]) = (solar_data ss = None)) \<and>
   (dict_get SEASONS_CONFIG (selected_season ui) = Inr cfg \<longrightarrow>
      ((\<exists>ss' g'. run_script ui ss g = Inr ([Info no_data_prompt], ss', g')) =
         (solar_data ss = None \<and> \<not> generate_clicked ui)) \<and>
      (solar_data ss = None \<and> \<not> generate_clicked ui \<longrightarrow>
         run_script ui ss g = Inr ([Info no_data_prompt], ss, g)))"
proof (intro conjI impI)
  show "(data_display ss sel yr = Inr [Info no_data_prompt]) = (solar_data ss = None)"
    by (rule data_display_prompt_iff)
next
  assume cfg: "dict_get SEASONS_CONFIG (selected_season ui) = Inr cfg"
  show "(\<exists>ss' g'. run_script ui ss g = Inr ([Info no_data_prompt], ss', g')) =
         (solar_data ss = None \<and> \<not> generate_clicked ui)"
  proof (cases "generate_clicked ui")
    case True
    from run_script_clicked [OF cfg True, of ss g] obtain df g1 where
      rs: "run_script ui ss g =
        (case data_display (ss\<lparr>solar_data := Some df, current_season := Some (selected_season ui)\<rparr>)
            (selected_season ui) (selected_year ui) of
           Inl e \<Rightarrow> Inl e
         | Inr page \<Rightarrow> Inr (page, ss\<lparr>solar_data := Some df, current_season := Some (selected_season ui)\<rparr>, g1))"
      by blast
    have "data_display (ss\<lparr>solar_data := Some df, current_season := Some (selected_season ui)\<rparr>)
            (selected_season ui) (selected_year ui) \<noteq> Inr [Info no_data_prompt]"
      by (rule data_display_Some_no_prompt) simp
    then have "\<not> (\<exists>ss' g'. run_script ui ss g = Inr ([Info no_data_prompt], ss', g'))"
      unfolding rs by (auto split: sum.splits)
    with True show ?thesis by simp
  next
    case False
    note rs = run_script_not_clicked [OF cfg False, of ss g]
    show ?thesis
    proof (cases "solar_data ss")
      case None
      then have "data_display ss (selected_season ui) (selected_year ui) = Inr [Info no_data_prompt]"
        by (simp add: data_display_prompt_iff)
      with rs None False show ?thesis by simp
    next
      case (Some df)
      then have "data_display ss (selected_season ui) (selected_year ui) \<noteq> Inr [Info no_data_prompt]"
        by (rule data_display_Some_no_prompt)
      then have "\<not> (\<exists>ss' g'. run_script ui ss g = Inr ([Info no_data_prompt], ss', g'))"
        unfolding rs by (auto split: sum.splits)
      with Some show ?thesis by simp
    qed
  qed
next
  assume cfg: "dict_get SEASONS_CONFIG (selected_season ui) = Inr cfg"
    and "solar_data ss = None \<and> \<not> generate_clicked ui"
  then have n: "solar_data ss = None" and c: "\<not> generate_clicked ui" by simp_all
  from n have "data_display ss (selected_season ui) (selected_year ui) = Inr [Info no_data_prompt]"
    by (simp add: data_display_prompt_iff)
  then show "run_script ui ss g = Inr ([Info no_data_prompt], ss, g)"
    unfolding run_script_not_clicked [OF cfg c] by simp
qed

theorem prompt_exactly_without_data_witness:
  "dict_get SEASONS_CONFIG ''winter'' = Inr (snd (SEASONS_CONFIG ! 0)) \<and>
   data_display \<lparr>solar_data = None, current_season = None\<rparr> ''winter'' 2024
     = Inr [Info no_data_prompt] \<and>
   run_script
     \<lparr>selected_season = ''winter'', selected_year = 2024, use_custom_params = False,
      custom_ranges = ranges (snd (SEASONS_CONFIG ! 0)), generate_clicked = False\<rparr>
     \<lparr>solar_data = None, current_season = None\<rparr> (\<lambda>j. 1 / 2, 0)
     = Inr ([Info no_data_prompt], \<lparr>solar_data = None, current_season = None\<rparr>, (\<lambda>j. 1 / 2, 0))"
  using winter_cfg
    prompt_exactly_without_data [of "\<lparr>solar_data = None, current_season = None\<rparr>" "''winter''" 2024
      "\<lparr>selected_season = ''winter'', selected_year = 2024, use_custom_params = False,
        custom_ranges = ranges (snd (SEASONS_CONFIG ! 0)), generate_clicked = False\<rparr>"
      "snd (SEASONS_CONFIG ! 0)" "(\<lambda>j. 1 / 2, 0)"]
  by simp

end
